theory Spec2Isabelle
  imports Complex_Main
begin

section \<open>Python values: floats and exceptions\<close>

text \<open>
  A Python \<^verbatim>\<open>float\<close> is an IEEE double: a finite number, one of the two infinities, or
  NaN. Finite doubles are modelled by the real numbers they denote: rounding, overflow to
  infinity and the sign of zero are not modelled. A decimal literal that is an operand of
  arithmetic stands for its decimal value: its distance to the double it denotes is part
  of the rounding. A decimal literal that is compared with stands for the double it
  denotes, since a comparison is exact and its outcome selects the branch. The special
  values keep their IEEE behaviour: NaN propagates through arithmetic and every comparison
  with NaN is false.
\<close>

datatype pyfloat = Finite real | PosInf | NegInf | NaN

text \<open>
  The exceptions the arithmetic of \<^verbatim>\<open>app.py\<close> can raise: \<^verbatim>\<open>math.sqrt\<close>, \<^verbatim>\<open>math.sin\<close> and
  \<^verbatim>\<open>math.cos\<close> raise \<^verbatim>\<open>ValueError\<close> (math domain error), float division by zero raises
  \<^verbatim>\<open>ZeroDivisionError\<close>, a dictionary lookup of a missing key raises \<^verbatim>\<open>KeyError\<close>.
  \<open>ProjError\<close> stands for a failure of the external reprojection library.
\<close>

datatype error = ValueError | ZeroDivisionError | KeyError | ProjError

text \<open>The outcome of evaluating a Python expression or calling a function.\<close>

datatype 'a exn = Raise error | Return 'a

definition bnd :: "'a exn \<Rightarrow> ('a \<Rightarrow> 'b exn) \<Rightarrow> 'b exn" where
  "bnd m f = (case m of Raise e \<Rightarrow> Raise e | Return x \<Rightarrow> f x)"

text \<open>A call \<^verbatim>\<open>f(a, b)\<close>: the arguments are evaluated left to right, then \<open>f\<close> runs.\<close>

definition call2 :: "('a \<Rightarrow> 'b \<Rightarrow> 'c exn) \<Rightarrow> 'a exn \<Rightarrow> 'b exn \<Rightarrow> 'c exn" where
  "call2 f a b = bnd a (\<lambda>x. bnd b (\<lambda>y. f x y))"

subsection \<open>IEEE arithmetic on values\<close>

definition inf_of_sign :: "bool \<Rightarrow> pyfloat" where
  "inf_of_sign positive = (if positive then PosInf else NegInf)"

instantiation pyfloat :: "{zero, plus, minus, uminus, times, abs, ord}"
begin

definition zero_pyfloat :: pyfloat where
  "zero_pyfloat = Finite 0"

fun uminus_pyfloat :: "pyfloat \<Rightarrow> pyfloat" where
  "uminus_pyfloat (Finite a) = Finite (- a)"
| "uminus_pyfloat PosInf = NegInf"
| "uminus_pyfloat NegInf = PosInf"
| "uminus_pyfloat NaN = NaN"

fun plus_pyfloat :: "pyfloat \<Rightarrow> pyfloat \<Rightarrow> pyfloat" where
  "plus_pyfloat (Finite a) (Finite b) = Finite (a + b)"
| "plus_pyfloat NaN _ = NaN"
| "plus_pyfloat _ NaN = NaN"
| "plus_pyfloat PosInf NegInf = NaN"
| "plus_pyfloat NegInf PosInf = NaN"
| "plus_pyfloat PosInf _ = PosInf"
| "plus_pyfloat _ PosInf = PosInf"
| "plus_pyfloat NegInf _ = NegInf"
| "plus_pyfloat _ NegInf = NegInf"

definition minus_pyfloat :: "pyfloat \<Rightarrow> pyfloat \<Rightarrow> pyfloat" where
  "minus_pyfloat a b = a + (- b)"

fun times_pyfloat :: "pyfloat \<Rightarrow> pyfloat \<Rightarrow> pyfloat" where
  "times_pyfloat (Finite a) (Finite b) = Finite (a * b)"
| "times_pyfloat NaN _ = NaN"
| "times_pyfloat _ NaN = NaN"
| "times_pyfloat (Finite a) PosInf = (if a = 0 then NaN else inf_of_sign (0 < a))"
| "times_pyfloat (Finite a) NegInf = (if a = 0 then NaN else inf_of_sign (a < 0))"
| "times_pyfloat PosInf (Finite b) = (if b = 0 then NaN else inf_of_sign (0 < b))"
| "times_pyfloat NegInf (Finite b) = (if b = 0 then NaN else inf_of_sign (b < 0))"
| "times_pyfloat PosInf PosInf = PosInf"
| "times_pyfloat PosInf NegInf = NegInf"
| "times_pyfloat NegInf PosInf = NegInf"
| "times_pyfloat NegInf NegInf = PosInf"

fun abs_pyfloat :: "pyfloat \<Rightarrow> pyfloat" where
  "abs_pyfloat (Finite a) = Finite \<bar>a\<bar>"
| "abs_pyfloat PosInf = PosInf"
| "abs_pyfloat NegInf = PosInf"
| "abs_pyfloat NaN = NaN"

fun less_pyfloat :: "pyfloat \<Rightarrow> pyfloat \<Rightarrow> bool" where
  "less_pyfloat (Finite a) (Finite b) = (a < b)"
| "less_pyfloat NaN _ = False"
| "less_pyfloat _ NaN = False"
| "less_pyfloat NegInf (Finite b) = True"
| "less_pyfloat NegInf PosInf = True"
| "less_pyfloat (Finite a) PosInf = True"
| "less_pyfloat _ _ = False"

fun less_eq_pyfloat :: "pyfloat \<Rightarrow> pyfloat \<Rightarrow> bool" where
  "less_eq_pyfloat (Finite a) (Finite b) = (a \<le> b)"
| "less_eq_pyfloat NaN _ = False"
| "less_eq_pyfloat _ NaN = False"
| "less_eq_pyfloat NegInf _ = True"
| "less_eq_pyfloat _ PosInf = True"
| "less_eq_pyfloat _ _ = False"

instance ..

end

text \<open>
  The quotient of two values with a divisor other than zero. Python raises before it
  divides by zero (see the division on outcomes below), so the value given here for a zero
  divisor is never observed.
\<close>

fun float_quotient :: "pyfloat \<Rightarrow> pyfloat \<Rightarrow> pyfloat" where
  "float_quotient (Finite a) (Finite b) = (if b = 0 then NaN else Finite (a / b))"
| "float_quotient NaN _ = NaN"
| "float_quotient _ NaN = NaN"
| "float_quotient (Finite a) PosInf = Finite 0"
| "float_quotient (Finite a) NegInf = Finite 0"
| "float_quotient PosInf (Finite b) = (if b = 0 then NaN else inf_of_sign (0 < b))"
| "float_quotient NegInf (Finite b) = (if b = 0 then NaN else inf_of_sign (b < 0))"
| "float_quotient _ _ = NaN"

subsection \<open>Arithmetic on outcomes\<close>

text \<open>
  A binary operation evaluates its left operand, then its right operand, and an exception
  of either ends the evaluation.
\<close>

instantiation exn :: (plus) plus
begin

definition plus_exn :: "'a exn \<Rightarrow> 'a exn \<Rightarrow> 'a exn" where
  "plus_exn a b = bnd a (\<lambda>x. bnd b (\<lambda>y. Return (x + y)))"

instance ..

end

instantiation exn :: (minus) minus
begin

definition minus_exn :: "'a exn \<Rightarrow> 'a exn \<Rightarrow> 'a exn" where
  "minus_exn a b = bnd a (\<lambda>x. bnd b (\<lambda>y. Return (x - y)))"

instance ..

end

instantiation exn :: (times) times
begin

definition times_exn :: "'a exn \<Rightarrow> 'a exn \<Rightarrow> 'a exn" where
  "times_exn a b = bnd a (\<lambda>x. bnd b (\<lambda>y. Return (x * y)))"

instance ..

end

instantiation exn :: (abs) abs
begin

definition abs_exn :: "'a exn \<Rightarrow> 'a exn" where
  "abs_exn a = bnd a (\<lambda>x. Return \<bar>x\<bar>)"

instance ..

end

text \<open>
  Float division \<^verbatim>\<open>a / b\<close>, written \<open>truediv a b\<close>: both operands are evaluated, then a
  divisor equal to zero raises.
\<close>

definition truediv :: "pyfloat exn \<Rightarrow> pyfloat exn \<Rightarrow> pyfloat exn" where
  "truediv a b =
     bnd a (\<lambda>x. bnd b (\<lambda>y. if y = 0 then Raise ZeroDivisionError else Return (float_quotient x y)))"

abbreviation lit :: "real \<Rightarrow> pyfloat exn" where
  "lit r \<equiv> Return (Finite r)"

subsection \<open>The \<^verbatim>\<open>math\<close> module\<close>

fun sqrt_value :: "pyfloat \<Rightarrow> pyfloat exn" where
  "sqrt_value (Finite a) = (if a < 0 then Raise ValueError else Return (Finite (sqrt a)))"
| "sqrt_value PosInf = Return PosInf"
| "sqrt_value NegInf = Raise ValueError"
| "sqrt_value NaN = Return NaN"

fun sin_value :: "pyfloat \<Rightarrow> pyfloat exn" where
  "sin_value (Finite a) = Return (Finite (sin a))"
| "sin_value NaN = Return NaN"
| "sin_value _ = Raise ValueError"

fun cos_value :: "pyfloat \<Rightarrow> pyfloat exn" where
  "cos_value (Finite a) = Return (Finite (cos a))"
| "cos_value NaN = Return NaN"
| "cos_value _ = Raise ValueError"

definition math_sqrt :: "pyfloat exn \<Rightarrow> pyfloat exn" where
  "math_sqrt a = bnd a sqrt_value"

definition math_sin :: "pyfloat exn \<Rightarrow> pyfloat exn" where
  "math_sin a = bnd a sin_value"

definition math_cos :: "pyfloat exn \<Rightarrow> pyfloat exn" where
  "math_cos a = bnd a cos_value"

section \<open>The coordinate conversion of \<^verbatim>\<open>app.py\<close>\<close>

definition PI :: pyfloat where
  "PI = Finite 3.1415926535897932384626"

definition A :: pyfloat where
  "A = Finite 6378245.0"

definition EE :: pyfloat where
  "EE = Finite 0.00669342162296594323"

text \<open>
  \<^verbatim>\<open>_transform_lat\<close>, \<^verbatim>\<open>_transform_lng\<close> and \<^verbatim>\<open>_out_of_china\<close> lose their leading
  underscore. Each \<^verbatim>\<open>ret += e\<close> is one binding of \<open>ret\<close>; a division \<^verbatim>\<open>e1 / e2\<close> is
  \<open>truediv e1 e2\<close>, so \<^verbatim>\<open>(e) * 2.0 / 3.0\<close> reads \<open>truediv (e * lit 2.0) (lit 3.0)\<close>.
\<close>

definition transform_lat :: "pyfloat \<Rightarrow> pyfloat \<Rightarrow> pyfloat exn" where
  "transform_lat lng lat =
     bnd (lit (-100.0) + lit 2.0 * Return lng + lit 3.0 * Return lat
            + lit 0.2 * Return lat * Return lat + lit 0.1 * Return lng * Return lat
            + lit 0.2 * math_sqrt \<bar>Return lng\<bar>) (\<lambda>ret.
     bnd (Return ret
            + truediv ((lit 20.0 * math_sin (lit 6.0 * Return lng * Return PI)
                         + lit 20.0 * math_sin (lit 2.0 * Return lng * Return PI)) * lit 2.0)
                (lit 3.0)) (\<lambda>ret.
     bnd (Return ret
            + truediv ((lit 20.0 * math_sin (Return lat * Return PI)
                         + lit 40.0 * math_sin (truediv (Return lat) (lit 3.0) * Return PI))
                        * lit 2.0)
                (lit 3.0)) (\<lambda>ret.
     bnd (Return ret
            + truediv ((lit 160.0 * math_sin (truediv (Return lat) (lit 12.0) * Return PI)
                         + lit 320 * math_sin (truediv (Return lat) (lit 30.0) * Return PI))
                        * lit 2.0)
                (lit 3.0)) (\<lambda>ret.
     Return ret))))"

definition transform_lng :: "pyfloat \<Rightarrow> pyfloat \<Rightarrow> pyfloat exn" where
  "transform_lng lng lat =
     bnd (lit 300.0 + Return lng + lit 2.0 * Return lat + lit 0.1 * Return lng * Return lng
            + lit 0.1 * Return lng * Return lat + lit 0.1 * math_sqrt \<bar>Return lng\<bar>) (\<lambda>ret.
     bnd (Return ret
            + truediv ((lit 20.0 * math_sin (lit 6.0 * Return lng * Return PI)
                         + lit 20.0 * math_sin (lit 2.0 * Return lng * Return PI)) * lit 2.0)
                (lit 3.0)) (\<lambda>ret.
     bnd (Return ret
            + truediv ((lit 20.0 * math_sin (Return lng * Return PI)
                         + lit 40.0 * math_sin (truediv (Return lng) (lit 3.0) * Return PI))
                        * lit 2.0)
                (lit 3.0)) (\<lambda>ret.
     bnd (Return ret
            + truediv ((lit 150.0 * math_sin (truediv (Return lng) (lit 12.0) * Return PI)
                         + lit 300.0 * math_sin (truediv (Return lng) (lit 30.0) * Return PI))
                        * lit 2.0)
                (lit 3.0)) (\<lambda>ret.
     Return ret))))"

text \<open>
  The four literals of \<^verbatim>\<open>_out_of_china\<close> are compared with the coordinates, so each stands
  for the double Python reads it as, the double nearest to the decimal, written here as its
  53-bit significand over a power of two:

    \<^item> \<^verbatim>\<open>73.66\<close> is \<^verbatim>\<open>0x1.26a3d70a3d70ap+6\<close>, below 73.66;
    \<^item> \<^verbatim>\<open>135.05\<close> is \<^verbatim>\<open>0x1.0e1999999999ap+7\<close>, above 135.05;
    \<^item> \<^verbatim>\<open>3.86\<close> is \<^verbatim>\<open>0x1.ee147ae147ae1p+1\<close>, below 3.86;
    \<^item> \<^verbatim>\<open>53.55\<close> is \<^verbatim>\<open>0x1.ac66666666666p+5\<close>, below 53.55.

  The chained comparison \<^verbatim>\<open>a < x < b\<close> is \<^verbatim>\<open>a < x and x < b\<close>.
\<close>

definition double_73_66 :: real where
  "double_73_66 = 5183361696126730 / 2 ^ 46"

definition double_135_05 :: real where
  "double_135_05 = 4751649450596762 / 2 ^ 45"

definition double_3_86 :: real where
  "double_3_86 = 8691947280825057 / 2 ^ 51"

definition double_53_55 :: real where
  "double_53_55 = 7536492501427814 / 2 ^ 47"

definition out_of_china :: "pyfloat \<Rightarrow> pyfloat \<Rightarrow> bool" where
  "out_of_china lng lat =
     (\<not> ((Finite double_73_66 < lng \<and> lng < Finite double_135_05)
          \<and> (Finite double_3_86 < lat \<and> lat < Finite double_53_55)))"

definition wgs84_to_gcj02 :: "pyfloat \<Rightarrow> pyfloat \<Rightarrow> (pyfloat \<times> pyfloat) exn" where
  "wgs84_to_gcj02 lng lat =
     (if out_of_china lng lat then Return (lng, lat)
      else
        bnd (call2 transform_lat (Return lng - lit 105.0) (Return lat - lit 35.0)) (\<lambda>d_lat.
        bnd (call2 transform_lng (Return lng - lit 105.0) (Return lat - lit 35.0)) (\<lambda>d_lng.
        bnd (truediv (Return lat) (lit 180.0) * Return PI) (\<lambda>rad_lat.
        bnd (math_sin (Return rad_lat)) (\<lambda>magic.
        bnd (lit 1 - Return EE * Return magic * Return magic) (\<lambda>magic.
        bnd (math_sqrt (Return magic)) (\<lambda>sqrt_magic.
        bnd (truediv (Return d_lat * lit 180.0)
               (truediv (Return A * (lit 1 - Return EE)) (Return magic * Return sqrt_magic)
                  * Return PI)) (\<lambda>d_lat.
        bnd (truediv (Return d_lng * lit 180.0)
               (truediv (Return A) (Return sqrt_magic) * math_cos (Return rad_lat)
                  * Return PI)) (\<lambda>d_lng.
        bnd (Return lat + Return d_lat) (\<lambda>mg_lat.
        bnd (Return lng + Return d_lng) (\<lambda>mg_lng.
        Return (mg_lng, mg_lat))))))))))))"

text \<open>
  \<^verbatim>\<open>transformer.transform\<close> belongs to the external library \<^verbatim>\<open>pyproj\<close>: the reprojection
  is a parameter \<open>transform\<close> of the composite conversion, and it may raise.
\<close>

definition cgcs2000_to_gcj02 ::
  "(pyfloat \<Rightarrow> pyfloat \<Rightarrow> (pyfloat \<times> pyfloat) exn) \<Rightarrow> pyfloat \<Rightarrow> pyfloat
     \<Rightarrow> (pyfloat \<times> pyfloat) exn" where
  "cgcs2000_to_gcj02 transform cgcs_lng cgcs_lat =
     bnd (transform cgcs_lng cgcs_lat) (\<lambda>(wgs84_lng, wgs84_lat).
     wgs84_to_gcj02 wgs84_lng wgs84_lat)"

section \<open>The distortion stage as the specification words it\<close>

text \<open>
  The specification describes the distortion over the real numbers. Its \<open>\<pi>\<close> is the
  literal constant of the program (the specification's numeric semantics: radians are
  obtained by multiplying by the literal constant), its \<open>a\<close> and \<open>e\<^sup>2\<close> are the ellipsoid
  parameters. \<open>spec_dLat\<close> and \<open>spec_dLng\<close> are the two corrections as functions of the
  offsets \<open>x = lng - 105.0\<close> and \<open>y = lat - 35.0\<close>: a polynomial, a square-root term on the
  absolute value of \<open>x\<close>, and three harmonic groups weighted by \<open>2/3\<close>.
\<close>

definition spec_pi :: real where
  "spec_pi = 3.1415926535897932384626"

definition spec_a :: real where
  "spec_a = 6378245.0"

definition spec_ee :: real where
  "spec_ee = 0.00669342162296594323"

definition spec_dLat :: "real \<Rightarrow> real \<Rightarrow> real" where
  "spec_dLat x y =
     -100.0 + 2.0 * x + 3.0 * y + 0.2 * y\<^sup>2 + 0.1 * x * y + 0.2 * sqrt \<bar>x\<bar>
     + 2 / 3 * (20 * sin (6 * x * spec_pi) + 20 * sin (2 * x * spec_pi))
     + 2 / 3 * (20 * sin (y * spec_pi) + 40 * sin (y / 3 * spec_pi))
     + 2 / 3 * (160 * sin (y / 12 * spec_pi) + 320 * sin (y / 30 * spec_pi))"

definition spec_dLng :: "real \<Rightarrow> real \<Rightarrow> real" where
  "spec_dLng x y =
     300.0 + 1.0 * x + 2.0 * y + 0.1 * x\<^sup>2 + 0.1 * x * y + 0.1 * sqrt \<bar>x\<bar>
     + 2 / 3 * (20 * sin (6 * x * spec_pi) + 20 * sin (2 * x * spec_pi))
     + 2 / 3 * (20 * sin (x * spec_pi) + 40 * sin (x / 3 * spec_pi))
     + 2 / 3 * (150 * sin (x / 12 * spec_pi) + 300 * sin (x / 30 * spec_pi))"

definition spec_rad :: "real \<Rightarrow> real" where
  "spec_rad lat = lat * spec_pi / 180"

definition spec_magic :: "real \<Rightarrow> real" where
  "spec_magic lat = 1 - spec_ee * (sin (spec_rad lat))\<^sup>2"

text \<open>The pair \<open>(lng + dLng, lat + dLat)\<close> of the specification's steps 3 and 4.\<close>

definition spec_distort :: "real \<Rightarrow> real \<Rightarrow> real \<times> real" where
  "spec_distort lng lat =
     (lng + spec_dLng (lng - 105.0) (lat - 35.0)
              * (180 / (spec_a / sqrt (spec_magic lat) * cos (spec_rad lat) * spec_pi)),
      lat + spec_dLat (lng - 105.0) (lat - 35.0)
              * (180 / ((spec_a * (1 - spec_ee)) / (spec_magic lat powr 1.5) * spec_pi)))"

section \<open>The coordinate-string parser and the record loop of \<^verbatim>\<open>app.py\<close>\<close>

text \<open>
  A Python \<^verbatim>\<open>str\<close> is a sequence of code points. Which code points are decimal digits
  (\<^verbatim>\<open>\d\<close>) and which are whitespace (\<^verbatim>\<open>str.strip\<close>), and the value \<^verbatim>\<open>float\<close> gives to a
  numeral, belong to the Python runtime: they are the fields of a parameter \<open>rt\<close>. On
  the texts the two patterns let through, \<^verbatim>\<open>float\<close> does not raise.
\<close>

type_synonym pystr = "nat list"

record pyrt =
  isdigit :: "nat \<Rightarrow> bool"
  isspace :: "nat \<Rightarrow> bool"
  float_of :: "pystr \<Rightarrow> pyfloat"

definition strip :: "pyrt \<Rightarrow> pystr \<Rightarrow> pystr" where
  "strip rt s = rev (dropWhile (isspace rt) (rev (dropWhile (isspace rt) s)))"

subsection \<open>The regular expressions\<close>

text \<open>
  The fragment of \<^verbatim>\<open>re\<close> the three patterns use: a literal character, \<^verbatim>\<open>\d\<close>, \<^verbatim>\<open>[^\d]\<close>,
  the greedy \<^verbatim>\<open>+\<close> of one of these, the greedy \<^verbatim>\<open>?\<close>, concatenation and the capturing
  group. \<open>matches\<close> lists every way a pattern matches at the start of the text, in the
  order in which a backtracking matcher tries them (longest repetition first, an optional
  part present first): each is the rest of the text with the groups captured so far. The
  match \<^verbatim>\<open>re\<close> reports is the first of the list. No group of the three patterns stands
  inside an optional part, so every match captures the same number of groups.
\<close>

datatype atom = Lit nat | Digit | NonDigit

datatype rx = One atom | Many atom | Opt rx | Cat rx rx | Capture rx

fun atom_ok :: "pyrt \<Rightarrow> atom \<Rightarrow> nat \<Rightarrow> bool" where
  "atom_ok rt (Lit c) x = (x = c)"
| "atom_ok rt Digit x = isdigit rt x"
| "atom_ok rt NonDigit x = (\<not> isdigit rt x)"

type_synonym mstate = "pystr \<times> pystr list"

fun matches :: "pyrt \<Rightarrow> rx \<Rightarrow> mstate \<Rightarrow> mstate list" where
  "matches rt (One a) (s, gs) =
     (case s of [] \<Rightarrow> [] | c # cs \<Rightarrow> if atom_ok rt a c then [(cs, gs)] else [])"
| "matches rt (Many a) (s, gs) =
     map (\<lambda>n. (drop n s, gs)) (rev [1 ..< Suc (length (takeWhile (atom_ok rt a) s))])"
| "matches rt (Opt r) st = matches rt r st @ [st]"
| "matches rt (Cat r1 r2) st = concat (map (matches rt r2) (matches rt r1 st))"
| "matches rt (Capture r) (s, gs) =
     map (\<lambda>(s', gs'). (s', gs' @ [take (length s - length s') s])) (matches rt r (s, gs))"

definition match_at :: "pyrt \<Rightarrow> rx \<Rightarrow> pystr \<Rightarrow> pystr list option" where
  "match_at rt r s = (case matches rt r (s, []) of [] \<Rightarrow> None | (rest, gs) # _ \<Rightarrow> Some gs)"

text \<open>\<^verbatim>\<open>re.fullmatch\<close>: the first match that ends at the end of the text.\<close>

definition fullmatch :: "pyrt \<Rightarrow> rx \<Rightarrow> pystr \<Rightarrow> pystr list option" where
  "fullmatch rt r s =
     (case filter (\<lambda>(rest, gs). rest = []) (matches rt r (s, [])) of
        [] \<Rightarrow> None | (rest, gs) # _ \<Rightarrow> Some gs)"

text \<open>\<^verbatim>\<open>pattern.search\<close>: the match at the leftmost position that has one; its groups.\<close>

fun search :: "pyrt \<Rightarrow> rx \<Rightarrow> pystr \<Rightarrow> pystr list option" where
  "search rt r [] = match_at rt r []"
| "search rt r (c # cs) =
     (case match_at rt r (c # cs) of Some gs \<Rightarrow> Some gs | None \<Rightarrow> search rt r cs)"

text \<open>\<^verbatim>\<open>\d+(?:\.\d+)?\<close>, the tail shared by the three patterns (46 is the full stop).\<close>

definition number_re :: rx where
  "number_re = Cat (Many Digit) (Opt (Cat (One (Lit 46)) (Many Digit)))"

text \<open>\<^verbatim>\<open>(-?\d+)[^\d]+(\d+)[^\d]+(\d+(?:\.\d+)?)\<close> (45 is the hyphen-minus).\<close>

definition dms_re :: rx where
  "dms_re =
     Cat (Capture (Cat (Opt (One (Lit 45))) (Many Digit)))
    (Cat (Many NonDigit)
    (Cat (Capture (Many Digit))
    (Cat (Many NonDigit)
         (Capture number_re))))"

text \<open>\<^verbatim>\<open>(-?\d+)[^\d]+(\d+(?:\.\d+)?)\<close>.\<close>

definition dms_re2 :: rx where
  "dms_re2 =
     Cat (Capture (Cat (Opt (One (Lit 45))) (Many Digit)))
    (Cat (Many NonDigit)
         (Capture number_re))"

text \<open>\<^verbatim>\<open>-?\d+(\.\d+)?\<close>, the pattern of the \<^verbatim>\<open>re.fullmatch\<close> (its group is not read).\<close>

definition decimal_re :: rx where
  "decimal_re = Cat (Opt (One (Lit 45))) number_re"

subsection \<open>\<^verbatim>\<open>parse_coord_py\<close>\<close>

text \<open>
  The argument is \<^verbatim>\<open>None\<close> or a text (the caller passes a \<^verbatim>\<open>str\<close>, so \<^verbatim>\<open>str(v)\<close> is the
  text itself). Unpacking \<^verbatim>\<open>m.groups()\<close> into a wrong number of names would raise
  \<^verbatim>\<open>ValueError\<close>.
\<close>

definition parse_coord_py :: "pyrt \<Rightarrow> pystr option \<Rightarrow> pyfloat option exn" where
  "parse_coord_py rt v =
     (case v of
        None \<Rightarrow> Return None
      | Some raw \<Rightarrow>
          let s = strip rt raw in
          if s = [] then Return None
          else if fullmatch rt decimal_re s \<noteq> None then Return (Some (float_of rt s))
          else
            (case search rt dms_re s of
               Some m \<Rightarrow>
                 (case map (float_of rt) m of
                    [d, mm, ss] \<Rightarrow>
                      bnd (lit (if d < Finite 0 then - 1 else 1)
                             * (\<bar>Return d\<bar> + truediv (Return mm) (lit 60.0)
                                  + truediv (Return ss) (lit 3600.0)))
                        (\<lambda>x. Return (Some x))
                  | _ \<Rightarrow> Raise ValueError)
             | None \<Rightarrow>
                 (case search rt dms_re2 s of
                    Some m2 \<Rightarrow>
                      (case map (float_of rt) m2 of
                         [d, mm] \<Rightarrow>
                           bnd (lit (if d < Finite 0 then - 1 else 1)
                                  * (\<bar>Return d\<bar> + truediv (Return mm) (lit 60.0)))
                             (\<lambda>x. Return (Some x))
                       | _ \<Rightarrow> Raise ValueError)
                  | None \<Rightarrow> Return None)))"

subsection \<open>\<^verbatim>\<open>sheet_to_points\<close>\<close>

text \<open>
  The keys of \<^verbatim>\<open>CATEGORY_COLORS\<close> are Chinese words, written by their code points; each
  value is the dictionary's one entry, the colour.
\<close>

definition other_key :: pystr where
  "other_key = [0x5176, 0x4ed6]"

definition CATEGORY_COLORS :: "(pystr \<times> pystr) list" where
  "CATEGORY_COLORS =
     [([0x53e4, 0x9057, 0x5740], map of_char ''#FF6B6B''),
      ([0x77f3, 0x7a9f, 0x5bfa, 0x53ca, 0x77f3, 0x523b], map of_char ''#4ECDC4''),
      ([0x53e4, 0x5efa, 0x7b51], map of_char ''#45B7D1''),
      ([0x8fd1, 0x73b0, 0x4ee3, 0x91cd, 0x8981, 0x53f2, 0x8ff9, 0x53ca, 0x4ee3, 0x8868, 0x6027,
        0x5efa, 0x7b51], map of_char ''#FFA500''),
      (other_key, map of_char ''#95A5A6'')]"

text \<open>\<^verbatim>\<open>key in category_str\<close>: the key is a substring.\<close>

fun is_in :: "pystr \<Rightarrow> pystr \<Rightarrow> bool" where
  "is_in k [] = (k = [])"
| "is_in k (c # cs) = (take (length k) (c # cs) = k \<or> is_in k cs)"

definition lookup_color :: "pystr \<Rightarrow> pystr exn" where
  "lookup_color k =
     (case map_of CATEGORY_COLORS k of None \<Rightarrow> Raise KeyError | Some info \<Rightarrow> Return info)"

definition get_category_info :: "pystr \<Rightarrow> pystr exn" where
  "get_category_info category_str =
     (if category_str = [] then lookup_color other_key
      else
        (case filter (\<lambda>k. k \<noteq> other_key \<and> is_in k category_str) (map fst CATEGORY_COLORS) of
           k # _ \<Rightarrow> lookup_color k
         | [] \<Rightarrow> lookup_color other_key))"

text \<open>
  The data frame is read through \<^verbatim>\<open>get_val\<close> only. A row gives, for each column key, the
  text of its cell, or nothing when the sheet has no such column or the cell is empty
  (\<^verbatim>\<open>pd.notna\<close> is false). The detection of the columns from the headers, which precedes
  the loop, is not modelled: the loop runs when the name, latitude and longitude columns
  were found.
\<close>

datatype colkey =
  KName | KLat | KLng | KAddr | KEraSpecific | KEraBroad | KCategory | KDesc | KType

type_synonym row = "colkey \<Rightarrow> pystr option"

definition get_val :: "pyrt \<Rightarrow> row \<Rightarrow> colkey \<Rightarrow> pystr" where
  "get_val rt r k = (case r k of None \<Rightarrow> [] | Some cell \<Rightarrow> strip rt cell)"

record point =
  p_name :: pystr
  p_lat :: pyfloat
  p_lng :: pyfloat
  p_addr :: pystr
  p_era :: pystr
  p_category :: pystr
  p_main_category :: pystr
  p_desc :: pystr
  p_type :: pystr
  p_color :: pystr

type_synonym acc = "point list \<times> (pystr \<rightharpoonup> int)"

text \<open>The body of the \<^verbatim>\<open>for\<close> loop, on the points and the statistics gathered so far.\<close>

definition row_step ::
  "pyrt \<Rightarrow> (pyfloat \<Rightarrow> pyfloat \<Rightarrow> (pyfloat \<times> pyfloat) exn) \<Rightarrow> row \<Rightarrow> acc \<Rightarrow> acc exn" where
  "row_step rt transform r st =
     (case st of (pts, category_stats) \<Rightarrow>
      let name = get_val rt r KName; lat_str = get_val rt r KLat; lng_str = get_val rt r KLng in
      bnd (parse_coord_py rt (Some lat_str)) (\<lambda>lat.
      bnd (parse_coord_py rt (Some lng_str)) (\<lambda>lng.
      (case (lat, lng) of
         (Some lat_v, Some lng_v) \<Rightarrow>
           bnd (cgcs2000_to_gcj02 transform lng_v lat_v) (\<lambda>(gcj_lng, gcj_lat).
           let cat = get_val rt r KCategory;
               category_key =
                 (case filter (\<lambda>k. k \<noteq> other_key \<and> cat \<noteq> [] \<and> is_in k cat)
                         (map fst CATEGORY_COLORS) of
                    k # _ \<Rightarrow> k | [] \<Rightarrow> other_key);
               category_stats' =
                 category_stats(category_key \<mapsto>
                   (case category_stats category_key of None \<Rightarrow> 0 | Some n \<Rightarrow> n) + 1)
           in
           bnd (get_category_info cat) (\<lambda>color.
           Return
             (pts @ [\<lparr> p_name = name, p_lat = gcj_lat, p_lng = gcj_lng,
                       p_addr = get_val rt r KAddr,
                       p_era = (let e = get_val rt r KEraSpecific
                                in if e \<noteq> [] then e else get_val rt r KEraBroad),
                       p_category = cat, p_main_category = cat, p_desc = get_val rt r KDesc,
                       p_type = get_val rt r KType, p_color = color \<rparr>],
              category_stats')))
       | _ \<Rightarrow> Return (pts, category_stats)))))"

fun rows_loop ::
  "pyrt \<Rightarrow> (pyfloat \<Rightarrow> pyfloat \<Rightarrow> (pyfloat \<times> pyfloat) exn) \<Rightarrow> row list \<Rightarrow> acc \<Rightarrow> acc exn" where
  "rows_loop rt transform [] st = Return st"
| "rows_loop rt transform (r # rs) st = bnd (row_step rt transform r st) (rows_loop rt transform rs)"

definition sheet_to_points ::
  "pyrt \<Rightarrow> (pyfloat \<Rightarrow> pyfloat \<Rightarrow> (pyfloat \<times> pyfloat) exn) \<Rightarrow> row list \<Rightarrow> acc exn" where
  "sheet_to_points rt transform df = rows_loop rt transform df ([], Map.empty)"

subsection \<open>The accepted texts, and a runtime for ASCII\<close>

text \<open>
  The specification names three formats of coordinate text: plain decimal degrees,
  degrees-minutes-seconds and degrees-minutes. \<open>in_lang rt r w\<close> says that the pattern \<open>r\<close>
  matches the whole of \<open>w\<close>; a text is well formed when it is a decimal numeral or holds a
  stretch in one of the two sexagesimal patterns, and malformed otherwise.
\<close>

fun in_lang :: "pyrt \<Rightarrow> rx \<Rightarrow> pystr \<Rightarrow> bool" where
  "in_lang rt (One a) w = (case w of [c] \<Rightarrow> atom_ok rt a c | _ \<Rightarrow> False)"
| "in_lang rt (Many a) w = (w \<noteq> [] \<and> list_all (atom_ok rt a) w)"
| "in_lang rt (Opt r) w = (w = [] \<or> in_lang rt r w)"
| "in_lang rt (Cat r1 r2) w =
     list_ex (\<lambda>n. in_lang rt r1 (take n w) \<and> in_lang rt r2 (drop n w)) [0 ..< Suc (length w)]"
| "in_lang rt (Capture r) w = in_lang rt r w"

definition contains_match :: "pyrt \<Rightarrow> rx \<Rightarrow> pystr \<Rightarrow> bool" where
  "contains_match rt r t = (\<exists>u w v. t = u @ w @ v \<and> in_lang rt r w)"

definition well_formed :: "pyrt \<Rightarrow> pystr \<Rightarrow> bool" where
  "well_formed rt t =
     (in_lang rt decimal_re t \<or> contains_match rt dms_re t \<or> contains_match rt dms_re2 t)"

fun ngroups :: "rx \<Rightarrow> nat" where
  "ngroups (One a) = 0"
| "ngroups (Many a) = 0"
| "ngroups (Opt r) = ngroups r"
| "ngroups (Cat r1 r2) = ngroups r1 + ngroups r2"
| "ngroups (Capture r) = Suc (ngroups r)"

fun groups_fixed :: "rx \<Rightarrow> bool" where
  "groups_fixed (One a) = True"
| "groups_fixed (Many a) = True"
| "groups_fixed (Opt r) = (ngroups r = 0 \<and> groups_fixed r)"
| "groups_fixed (Cat r1 r2) = (groups_fixed r1 \<and> groups_fixed r2)"
| "groups_fixed (Capture r) = groups_fixed r"

text \<open>Whether every text of a pattern holds a digit: it has a mandatory \<^verbatim>\<open>\d+\<close>.\<close>

fun forces_digit :: "rx \<Rightarrow> bool" where
  "forces_digit (Many Digit) = True"
| "forces_digit (Cat r1 r2) = (forces_digit r1 \<or> forces_digit r2)"
| "forces_digit (Capture r) = forces_digit r"
| "forces_digit _ = False"

text \<open>
  A runtime restricted to ASCII text (code points below 128), to run the parser on
  examples. Among these code points the digits are \<^verbatim>\<open>0\<close> to \<^verbatim>\<open>9\<close> and the whitespace that
  \<^verbatim>\<open>strip\<close> removes is the space, the characters 9 to 13 and the separators 28 to 31;
  \<^verbatim>\<open>float\<close> is given on the texts the patterns capture, an optional minus sign and a
  decimal numeral of ASCII digits, and reads them exactly. The digits and whitespace of
  Unicode beyond ASCII are outside this runtime; the theorems below hold for every runtime.
\<close>

definition digits_value :: "pystr \<Rightarrow> nat" where
  "digits_value ds = foldl (\<lambda>n c. 10 * n + (c - 48)) 0 ds"

definition ascii_isdigit :: "nat \<Rightarrow> bool" where
  "ascii_isdigit c = (48 \<le> c \<and> c \<le> 57)"

definition ascii_float :: "pystr \<Rightarrow> pyfloat" where
  "ascii_float s =
     (let negative = (s \<noteq> [] \<and> hd s = 45);
          body = (if negative then tl s else s);
          ip = takeWhile ascii_isdigit body;
          fp = drop 1 (dropWhile ascii_isdigit body);
          v = real (digits_value ip) + real (digits_value fp) / 10 ^ length fp
      in Finite (if negative then - v else v))"

definition ascii_rt :: pyrt where
  "ascii_rt = \<lparr> isdigit = ascii_isdigit,
                isspace = (\<lambda>c. c = 32 \<or> (9 \<le> c \<and> c \<le> 13) \<or> (28 \<le> c \<and> c \<le> 31)),
                float_of = ascii_float \<rparr>"

abbreviation ascii :: "string \<Rightarrow> pystr" where
  "ascii s \<equiv> map of_char s"

section \<open>Evaluation on finite values\<close>

lemma bnd_simps [simp]:
  "bnd (Raise e) f = Raise e"
  "bnd (Return x) f = f x"
  by (simp_all add: bnd_def)

lemma exn_arith [simp]:
  "Return (x::'a::plus) + Return y = Return (x + y)"
  "Return (u::'b::minus) - Return v = Return (u - v)"
  "Return (p::'c::times) * Return q = Return (p * q)"
  "\<bar>Return (r::'d::abs)\<bar> = Return \<bar>r\<bar>"
  by (simp_all add: plus_exn_def minus_exn_def times_exn_def abs_exn_def)

lemma truediv_Finite [simp]:
  "truediv (Return x) (Return (Finite b)) =
     (if b = 0 then Raise ZeroDivisionError else Return (float_quotient x (Finite b)))"
  by (simp add: truediv_def zero_pyfloat_def)

lemma finite_arith [simp]:
  "Finite a - Finite b = Finite (a - b)"
  "(Finite a = 0) = (a = 0)"
  by (simp_all add: minus_pyfloat_def zero_pyfloat_def)

lemma math_simps [simp]:
  "math_sqrt (Return x) = sqrt_value x"
  "math_sin (Return x) = sin_value x"
  "math_cos (Return x) = cos_value x"
  by (simp_all add: math_sqrt_def math_sin_def math_cos_def)

lemma PI_eq: "PI = Finite spec_pi"
  by (simp add: PI_def spec_pi_def)

lemma A_eq: "A = Finite spec_a"
  by (simp add: A_def spec_a_def)

lemma EE_eq: "EE = Finite spec_ee"
  by (simp add: EE_def spec_ee_def)

lemma transform_lat_Finite:
  "transform_lat (Finite x) (Finite y) = Return (Finite (spec_dLat x y))"
  by (simp add: transform_lat_def PI_eq spec_dLat_def power2_eq_square add_divide_distrib)

lemma transform_lng_Finite:
  "transform_lng (Finite x) (Finite y) = Return (Finite (spec_dLng x y))"
  by (simp add: transform_lng_def PI_eq spec_dLng_def power2_eq_square add_divide_distrib)

text \<open>
  Each bound of the rectangle is a double, an integer of 53 bits times a power of two, and
  lies within half a unit in the last place of its literal, strictly: it is the double
  nearest to the decimal. The western, eastern and southern bounds are rounded outwards,
  so the rectangle of the code contains these three decimals; the northern bound is rounded
  inwards, so the double of 53.55, which is less than the decimal, is already outside.
\<close>

lemma double_literals:
  "double_73_66 = 5183361696126730 / 2 ^ 46 \<and> (2::int) ^ 52 \<le> 5183361696126730
     \<and> (5183361696126730::int) < 2 ^ 53"
  "double_135_05 = 4751649450596762 / 2 ^ 45 \<and> (2::int) ^ 52 \<le> 4751649450596762
     \<and> (4751649450596762::int) < 2 ^ 53"
  "double_3_86 = 8691947280825057 / 2 ^ 51 \<and> (2::int) ^ 52 \<le> 8691947280825057
     \<and> (8691947280825057::int) < 2 ^ 53"
  "double_53_55 = 7536492501427814 / 2 ^ 47 \<and> (2::int) ^ 52 \<le> 7536492501427814
     \<and> (7536492501427814::int) < 2 ^ 53"
  by (simp_all add: double_73_66_def double_135_05_def double_3_86_def double_53_55_def)

lemma double_literals_nearest:
  "double_73_66 < 73.66 \<and> 73.66 - double_73_66 < 1 / 2 ^ 47"
  "135.05 < double_135_05 \<and> double_135_05 - 135.05 < 1 / 2 ^ 46"
  "double_3_86 < 3.86 \<and> 3.86 - double_3_86 < 1 / 2 ^ 52"
  "double_53_55 < 53.55 \<and> 53.55 - double_53_55 < 1 / 2 ^ 48"
  by (simp_all add: double_73_66_def double_135_05_def double_3_86_def double_53_55_def)

lemma double_literals_range:
  "73 < double_73_66" "double_135_05 < 136" "3 < double_3_86" "double_53_55 < 54"
  by (simp_all add: double_73_66_def double_135_05_def double_3_86_def double_53_55_def)

lemma out_of_china_Finite:
  "out_of_china (Finite x) (Finite y) \<longleftrightarrow>
     \<not> (double_73_66 < x \<and> x < double_135_05 \<and> double_3_86 < y \<and> y < double_53_55)"
  by (simp add: out_of_china_def)

lemma wgs84_outside:
  "out_of_china lng lat \<Longrightarrow> wgs84_to_gcj02 lng lat = Return (lng, lat)"
  by (simp add: wgs84_to_gcj02_def)

subsection \<open>The scaling step never fails\<close>

lemma magic_pos: "0 < spec_magic lat"
proof -
  have "(sin (spec_rad lat))\<^sup>2 \<le> 1"
    by (simp add: abs_square_le_1)
  then have "spec_ee * (sin (spec_rad lat))\<^sup>2 \<le> spec_ee * 1"
    by (intro mult_left_mono) (simp_all add: spec_ee_def)
  then show ?thesis
    by (simp add: spec_magic_def spec_ee_def)
qed

lemma cos_rad_pos:
  assumes "0 < lat" and "lat < 57"
  shows "0 < cos (spec_rad lat)"
proof (rule cos_gt_zero)
  show "0 < spec_rad lat"
    using assms by (simp add: spec_rad_def spec_pi_def)
  have "spec_rad lat < 1"
    using assms by (simp add: spec_rad_def spec_pi_def)
  also have "1 \<le> pi / 2"
    using pi_ge_two by simp
  finally show "spec_rad lat < pi / 2" .
qed

lemma powr_three_halves: "0 < (m::real) \<Longrightarrow> m powr (3 / 2) = m * sqrt m"
proof -
  assume m: "0 < m"
  have "m powr (3 / 2) = m powr (1 + 1 / 2)"
    by simp
  also have "\<dots> = m powr 1 * m powr (1 / 2)"
    by (rule powr_add)
  also have "\<dots> = m * sqrt m"
    using m by (simp add: powr_half_sqrt)
  finally show ?thesis .
qed

lemma wgs84_inside:
  assumes "double_73_66 < lng" and "lng < double_135_05"
    and "double_3_86 < lat" and "lat < double_53_55"
  shows "wgs84_to_gcj02 (Finite lng) (Finite lat) =
           Return (Finite (fst (spec_distort lng lat)), Finite (snd (spec_distort lng lat)))"
proof -
  define r where "r = spec_rad lat"
  define m where "m = spec_magic lat"
  define dlat where "dlat = spec_dLat (lng - 105) (lat - 35)"
  define dlng where "dlng = spec_dLng (lng - 105) (lat - 35)"
  have m: "0 < m"
    unfolding m_def by (rule magic_pos)
  have "0 < lat" "lat < 57"
    using assms(3,4) double_literals_range(3,4) by simp_all
  then have c: "0 < cos r"
    unfolding r_def by (rule cos_rad_pos)
  have inside: "\<not> out_of_china (Finite lng) (Finite lat)"
    using assms by (simp add: out_of_china_Finite)
  have p: "0 < spec_pi"
    by (simp add: spec_pi_def)
  have a: "0 < spec_a" "spec_ee < 1"
    by (simp_all add: spec_a_def spec_ee_def)
  have r_eq: "lat * spec_pi / 180 = r"
    by (simp add: r_def spec_rad_def)
  have m_eq: "1 - spec_ee * sin r * sin r = m"
    by (simp add: m_def spec_magic_def r_def power2_eq_square)
  have nz: "m * sqrt m \<noteq> 0" "sqrt m \<noteq> 0" "\<not> m < 0" "cos r \<noteq> 0" "spec_pi \<noteq> 0"
    "spec_a \<noteq> 0" "1 - spec_ee \<noteq> 0"
    using m c p a by simp_all
  have "wgs84_to_gcj02 (Finite lng) (Finite lat) =
          Return (Finite (lng + dlng * (180 / (spec_a / sqrt m * cos r * spec_pi))),
                  Finite (lat + dlat * (180 / ((spec_a * (1 - spec_ee)) / (m powr (3 / 2)) * spec_pi))))"
    using nz m
    by (simp add: wgs84_to_gcj02_def inside call2_def transform_lat_Finite transform_lng_Finite
        PI_eq A_eq EE_eq r_eq m_eq dlat_def[symmetric] dlng_def[symmetric] powr_three_halves)
  then show ?thesis
    by (simp add: spec_distort_def r_def m_def dlat_def dlng_def)
qed

section \<open>The distortion stage\<close>

text \<open>
  C1. For every point strictly inside the bounding rectangle, that is, strictly between the
  doubles of the literals 73.66 and 135.05 in longitude and of 3.86 and 53.55 in latitude,
  \<^verbatim>\<open>wgs84_to_gcj02\<close> returns exactly \<open>(lng + dLng, lat + dLat)\<close>, where \<open>dLng\<close> and \<open>dLat\<close>
  are the specification's corrections of the offsets \<open>(lng - 105.0, lat - 35.0)\<close>
  (polynomial, square-root term and the sine series at 6x, 2x, 1x, 1/3x, 1/12x and 1/30x of
  the argument times \<open>\<pi>\<close>, each group weighted by 2/3), scaled by
  \<open>180 / (a / \<surd>magic \<cdot> cos(rad) \<cdot> \<pi>)\<close> and \<open>180 / (a (1 - ee) / magic\<^sup>1\<^sup>.\<^sup>5 \<cdot> \<pi>)\<close> with
  \<open>magic = 1 - ee \<cdot> sin\<^sup>2(rad)\<close>, \<open>a = 6378245.0\<close> and \<open>ee = 0.00669342162296594323\<close>. No step
  of the computation raises.
\<close>

theorem distortion_formula:
  assumes "double_73_66 < lng" and "lng < double_135_05"
    and "double_3_86 < lat" and "lat < double_53_55"
  shows "wgs84_to_gcj02 (Finite lng) (Finite lat) =
           Return
             (Finite (lng + spec_dLng (lng - 105.0) (lat - 35.0)
                        * (180 / (spec_a / sqrt (spec_magic lat) * cos (spec_rad lat) * spec_pi))),
              Finite (lat + spec_dLat (lng - 105.0) (lat - 35.0)
                        * (180 / ((spec_a * (1 - spec_ee)) / (spec_magic lat powr 1.5) * spec_pi))))
         \<and> spec_magic lat = 1 - spec_ee * (sin (lat * spec_pi / 180))\<^sup>2
         \<and> spec_a = 6378245.0 \<and> spec_ee = 0.00669342162296594323"
  using wgs84_inside[OF assms]
  by (simp add: spec_distort_def spec_magic_def spec_rad_def spec_a_def spec_ee_def)

theorem distortion_formula_witness:
  "wgs84_to_gcj02 (Finite 116.404) (Finite 39.915) =
     Return
       (Finite (116.404 + spec_dLng 11.404 4.915
                  * (180 / (spec_a / sqrt (spec_magic 39.915) * cos (spec_rad 39.915) * spec_pi))),
        Finite (39.915 + spec_dLat 11.404 4.915
                  * (180 / ((spec_a * (1 - spec_ee)) / (spec_magic 39.915 powr 1.5) * spec_pi))))"
proof -
  have inside: "double_73_66 < 116.404" "116.404 < double_135_05"
    "double_3_86 < 39.915" "39.915 < double_53_55"
    by (simp_all add: double_73_66_def double_135_05_def double_3_86_def double_53_55_def)
  have "(116.404::real) - 105.0 = 11.404" "(39.915::real) - 35.0 = 4.915"
    by simp_all
  then show ?thesis
    using distortion_formula[of "116.404" "39.915", OF inside] by simp
qed

text \<open>
  C2. For every finite point whose longitude is not in \<open>(73.66, 135.05)\<close> or whose latitude
  is not in \<open>(3.86, 53.55)\<close>, the bounds being the doubles of these literals,
  \<^verbatim>\<open>wgs84_to_gcj02\<close> returns the input pair unchanged. This includes the four edges, in
  particular the latitude that is the double of 53.55.
\<close>

theorem outside_identity:
  "lng \<notin> {double_73_66 <..< double_135_05} \<or> lat \<notin> {double_3_86 <..< double_53_55}
     \<Longrightarrow> wgs84_to_gcj02 (Finite lng) (Finite lat) = Return (Finite lng, Finite lat)"
  by (rule wgs84_outside) (auto simp: out_of_china_Finite)

theorem outside_identity_witness:
  "wgs84_to_gcj02 (Finite 140) (Finite 35) = Return (Finite 140, Finite 35)
   \<and> wgs84_to_gcj02 (Finite 100) (Finite 2.5) = Return (Finite 100, Finite 2.5)
   \<and> wgs84_to_gcj02 (Finite 130) (Finite double_53_55) = Return (Finite 130, Finite double_53_55)
   \<and> wgs84_to_gcj02 (Finite 130) (Finite (3768246250713907 / 2 ^ 46))
       = Return (Finite 130, Finite (3768246250713907 / 2 ^ 46))"
  using outside_identity[of 140 35] outside_identity[of 100 "2.5"]
    outside_identity[of 130 double_53_55] outside_identity[of 130 "3768246250713907 / 2 ^ 46"]
  by (simp add: double_73_66_def double_135_05_def double_3_86_def double_53_55_def)

text \<open>
  C3. The distortion is applied if and only if the point is strictly inside the bounding
  rectangle: \<^verbatim>\<open>wgs84_to_gcj02\<close> takes the distortion branch exactly when all four strict
  inequalities hold and returns the input otherwise; a point on any of the four edges
  (longitude the double of 73.66 or of 135.05, latitude the double of 3.86 or of 53.55)
  counts as outside and is returned unchanged.
\<close>

theorem distortion_iff_strictly_inside:
  "wgs84_to_gcj02 (Finite lng) (Finite lat) =
     (if double_73_66 < lng \<and> lng < double_135_05 \<and> double_3_86 < lat \<and> lat < double_53_55
      then Return (Finite (fst (spec_distort lng lat)), Finite (snd (spec_distort lng lat)))
      else Return (Finite lng, Finite lat))
   \<and> (out_of_china (Finite lng) (Finite lat)
        \<longleftrightarrow> \<not> (double_73_66 < lng \<and> lng < double_135_05
                \<and> double_3_86 < lat \<and> lat < double_53_55))
   \<and> (lng = double_73_66 \<or> lng = double_135_05 \<or> lat = double_3_86 \<or> lat = double_53_55
        \<longrightarrow> wgs84_to_gcj02 (Finite lng) (Finite lat) = Return (Finite lng, Finite lat))"
proof (cases "double_73_66 < lng \<and> lng < double_135_05
                \<and> double_3_86 < lat \<and> lat < double_53_55")
  case True
  then have "wgs84_to_gcj02 (Finite lng) (Finite lat) =
      Return (Finite (fst (spec_distort lng lat)), Finite (snd (spec_distort lng lat)))"
    by (intro wgs84_inside) simp_all
  with True show ?thesis
    by (auto simp: out_of_china_Finite)
next
  case False
  then have o: "out_of_china (Finite lng) (Finite lat)"
    by (simp add: out_of_china_Finite)
  from wgs84_outside[OF o] False show ?thesis
    by (auto simp: out_of_china_Finite)
qed

text \<open>
  The four edges, each with the other coordinate well inside the rectangle, and the northern
  edge written as the fraction that the literal \<^verbatim>\<open>53.55\<close> denotes.
\<close>

theorem distortion_iff_strictly_inside_witness:
  "wgs84_to_gcj02 (Finite double_73_66) (Finite 30) = Return (Finite double_73_66, Finite 30)
   \<and> wgs84_to_gcj02 (Finite double_135_05) (Finite 30) = Return (Finite double_135_05, Finite 30)
   \<and> wgs84_to_gcj02 (Finite 100) (Finite double_3_86) = Return (Finite 100, Finite double_3_86)
   \<and> wgs84_to_gcj02 (Finite 100) (Finite double_53_55) = Return (Finite 100, Finite double_53_55)
   \<and> wgs84_to_gcj02 (Finite 130) (Finite (3768246250713907 / 2 ^ 46))
       = Return (Finite 130, Finite (3768246250713907 / 2 ^ 46))"
  using distortion_iff_strictly_inside[of double_73_66 30]
    distortion_iff_strictly_inside[of double_135_05 30]
    distortion_iff_strictly_inside[of 100 double_3_86]
    distortion_iff_strictly_inside[of 100 double_53_55]
    distortion_iff_strictly_inside[of 130 "3768246250713907 / 2 ^ 46"]
  by (simp add: double_53_55_def)

text \<open>
  C4. For every finite input, \<^verbatim>\<open>wgs84_to_gcj02\<close> returns a pair of finite numbers and raises
  nothing: the square root is taken of \<open>magic = 1 - ee \<cdot> sin\<^sup>2(rad_lat)\<close>, which is strictly
  positive, and the two divisors of the scaling step are not zero, because \<open>cos(rad_lat)\<close> is
  strictly positive for every latitude in \<open>(3.86, 53.55)\<close>.
\<close>

theorem wgs84_to_gcj02_never_raises:
  "(\<exists>x y. wgs84_to_gcj02 (Finite lng) (Finite lat) = Return (Finite x, Finite y))
   \<and> (\<forall>e. wgs84_to_gcj02 (Finite lng) (Finite lat) \<noteq> Raise e)
   \<and> 0 < spec_magic lat
   \<and> (3.86 < lat \<and> lat < 53.55 \<longrightarrow> 0 < cos (spec_rad lat))"
proof -
  have "\<exists>x y. wgs84_to_gcj02 (Finite lng) (Finite lat) = Return (Finite x, Finite y)"
  proof (cases "out_of_china (Finite lng) (Finite lat)")
    case True
    from wgs84_outside[OF this] show ?thesis
      by blast
  next
    case False
    then have "double_73_66 < lng" "lng < double_135_05" "double_3_86 < lat" "lat < double_53_55"
      by (simp_all add: out_of_china_Finite)
    from wgs84_inside[OF this] show ?thesis
      by blast
  qed
  moreover have "0 < cos (spec_rad lat)" if "3.86 < lat \<and> lat < 53.55"
    using that by (intro cos_rad_pos) simp_all
  ultimately show ?thesis
    using magic_pos by auto
qed

theorem wgs84_to_gcj02_never_raises_witness:
  "(\<exists>x y. wgs84_to_gcj02 (Finite 116.404) (Finite 39.915) = Return (Finite x, Finite y))
   \<and> 0 < spec_magic 39.915 \<and> 0 < cos (spec_rad 39.915)"
  using wgs84_to_gcj02_never_raises[of "116.404" "39.915"] by simp

text \<open>
  C5. Both correction functions take the square root of the absolute value of the longitude
  offset. For every point inside the bounding rectangle with longitude below 105.0 the
  offset \<open>lng - 105.0\<close> is negative: its own square root would raise a domain error, but
  \<^verbatim>\<open>_transform_lat\<close>, \<^verbatim>\<open>_transform_lng\<close> and \<^verbatim>\<open>wgs84_to_gcj02\<close> raise nothing and return the
  values of the reference formula, whose square-root term is \<open>\<surd>|lng - 105.0| = \<surd>(105.0 - lng)\<close>.
  The rectangle is the one of the code: its bounds are the doubles of the literals.
\<close>

theorem sqrt_of_absolute_offset:
  assumes "double_73_66 < lng" and "lng < 105.0"
    and "double_3_86 < lat" and "lat < double_53_55"
  shows "math_sqrt (Return (Finite (lng - 105.0))) = Raise ValueError
       \<and> math_sqrt \<bar>Return (Finite (lng - 105.0))\<bar> = Return (Finite (sqrt (105.0 - lng)))
       \<and> transform_lat (Finite (lng - 105.0)) (Finite (lat - 35.0))
           = Return (Finite (spec_dLat (lng - 105.0) (lat - 35.0)))
       \<and> transform_lng (Finite (lng - 105.0)) (Finite (lat - 35.0))
           = Return (Finite (spec_dLng (lng - 105.0) (lat - 35.0)))
       \<and> wgs84_to_gcj02 (Finite lng) (Finite lat)
           = Return (Finite (fst (spec_distort lng lat)), Finite (snd (spec_distort lng lat)))"
proof -
  have "lng < double_135_05"
    using assms(2) by (simp add: double_135_05_def)
  from wgs84_inside[OF assms(1) this assms(3,4)] show ?thesis
    using assms(2) by (simp add: transform_lat_Finite transform_lng_Finite abs_if)
qed

theorem sqrt_of_absolute_offset_witness:
  "math_sqrt (Return (Finite (100 - 105.0))) = Raise ValueError
   \<and> math_sqrt \<bar>Return (Finite (100 - 105.0))\<bar> = Return (Finite (sqrt (105.0 - 100)))
   \<and> transform_lat (Finite (100 - 105.0)) (Finite (30 - 35.0))
       = Return (Finite (spec_dLat (100 - 105.0) (30 - 35.0)))
   \<and> transform_lng (Finite (100 - 105.0)) (Finite (30 - 35.0))
       = Return (Finite (spec_dLng (100 - 105.0) (30 - 35.0)))
   \<and> wgs84_to_gcj02 (Finite 100) (Finite 30)
       = Return (Finite (fst (spec_distort 100 30)), Finite (snd (spec_distort 100 30)))"
proof -
  have inside: "double_73_66 < 100" "(100::real) < 105.0" "double_3_86 < 30" "30 < double_53_55"
    by (simp_all add: double_73_66_def double_3_86_def double_53_55_def)
  show ?thesis
    using sqrt_of_absolute_offset[of 100 30, OF inside] by simp
qed

text \<open>
  C10. The distortion stage does not enforce finiteness. If either coordinate is NaN, the
  strict comparisons of the bounding predicate on that coordinate are false, so
  \<^verbatim>\<open>_out_of_china\<close> is true and \<^verbatim>\<open>wgs84_to_gcj02\<close> returns the input pair unchanged
  instead of raising.
\<close>

theorem nan_passes_through:
  "lng = NaN \<or> lat = NaN \<Longrightarrow>
     \<not> Finite 73.66 < NaN \<and> \<not> NaN < Finite 135.05 \<and> \<not> Finite 3.86 < NaN \<and> \<not> NaN < Finite 53.55
     \<and> \<not> Finite double_73_66 < NaN \<and> \<not> NaN < Finite double_135_05
     \<and> \<not> Finite double_3_86 < NaN \<and> \<not> NaN < Finite double_53_55
     \<and> out_of_china lng lat \<and> wgs84_to_gcj02 lng lat = Return (lng, lat)"
proof -
  assume nan: "lng = NaN \<or> lat = NaN"
  have l: "\<not> x < NaN" for x :: pyfloat
    by (cases x) simp_all
  have "out_of_china lng lat"
    using nan l by (auto simp: out_of_china_def)
  then show ?thesis
    by (simp add: wgs84_outside)
qed

theorem nan_passes_through_witness:
  "wgs84_to_gcj02 NaN (Finite 30) = Return (NaN, Finite 30)
   \<and> wgs84_to_gcj02 (Finite 120) NaN = Return (Finite 120, NaN)
   \<and> wgs84_to_gcj02 NaN NaN = Return (NaN, NaN)"
  using nan_passes_through[of NaN "Finite 30"] nan_passes_through[of "Finite 120" NaN]
    nan_passes_through[of NaN NaN]
  by simp

section \<open>The composite conversion\<close>

text \<open>
  C7. \<^verbatim>\<open>cgcs2000_to_gcj02\<close> is the sequential composition of the two stages: it applies the
  reprojection to its input, and then \<^verbatim>\<open>wgs84_to_gcj02\<close> to the reprojected pair, longitude
  first; a failure of the reprojection is passed on, and nothing else is computed.
\<close>

theorem composite_is_composition:
  "cgcs2000_to_gcj02 transform cgcs_lng cgcs_lat =
     (case transform cgcs_lng cgcs_lat of
        Raise e \<Rightarrow> Raise e
      | Return (wgs84_lng, wgs84_lat) \<Rightarrow> wgs84_to_gcj02 wgs84_lng wgs84_lat)"
  by (simp add: cgcs2000_to_gcj02_def bnd_def split: exn.splits)

section \<open>The parser and the record loop\<close>

subsection \<open>The matcher finds exactly the texts of the pattern\<close>

lemma in_lang_Cat: "in_lang rt (Cat r1 r2) w \<longleftrightarrow> (\<exists>u v. w = u @ v \<and> in_lang rt r1 u \<and> in_lang rt r2 v)"
proof
  assume "in_lang rt (Cat r1 r2) w"
  then obtain n where "in_lang rt r1 (take n w)" "in_lang rt r2 (drop n w)"
    unfolding in_lang.simps list_ex_iff by blast
  then show "\<exists>u v. w = u @ v \<and> in_lang rt r1 u \<and> in_lang rt r2 v"
    by (metis append_take_drop_id)
next
  assume "\<exists>u v. w = u @ v \<and> in_lang rt r1 u \<and> in_lang rt r2 v"
  then obtain u v where w: "w = u @ v" and u: "in_lang rt r1 u" and v: "in_lang rt r2 v" by blast
  have "length u \<in> set [0 ..< Suc (length w)]" using w by simp
  moreover have "in_lang rt r1 (take (length u) w) \<and> in_lang rt r2 (drop (length u) w)"
    using w u v by simp
  ultimately show "in_lang rt (Cat r1 r2) w"
    unfolding in_lang.simps list_ex_iff by blast
qed

lemma take_le_takeWhile:
  "n \<le> length (takeWhile P xs) \<Longrightarrow> list_all P (take n xs)"
proof -
  assume n: "n \<le> length (takeWhile P xs)"
  have "take n xs = take n (takeWhile P xs @ dropWhile P xs)" by simp
  also have "\<dots> = take n (takeWhile P xs)" using n by (simp del: takeWhile_dropWhile_id)
  finally have "set (take n xs) \<subseteq> set (takeWhile P xs)" by (simp add: set_take_subset)
  then show ?thesis by (auto simp: list_all_iff dest: set_takeWhileD)
qed

lemma matches_sound:
  "(s', gs') \<in> set (matches rt r (s, gs)) \<Longrightarrow> \<exists>w. s = w @ s' \<and> in_lang rt r w"
proof (induction r arbitrary: s gs s' gs')
  case (One a)
  then show ?case by (cases s) (auto split: if_splits)
next
  case (Many a)
  then obtain n where n: "1 \<le> n" "n \<le> length (takeWhile (atom_ok rt a) s)" and s': "s' = drop n s"
    by auto
  have "n \<le> length s" using n(2) length_takeWhile_le[of "atom_ok rt a" s] by linarith
  then have "take n s \<noteq> []" using n(1) by auto
  moreover have "list_all (atom_ok rt a) (take n s)" using n(2) by (rule take_le_takeWhile)
  ultimately have "in_lang rt (Many a) (take n s)" by simp
  moreover have "s = take n s @ s'" using s' by simp
  ultimately show ?case by blast
next
  case (Opt r)
  from Opt.prems have "(s', gs') \<in> set (matches rt r (s, gs)) \<or> s' = s" by auto
  then show ?case
  proof
    assume "(s', gs') \<in> set (matches rt r (s, gs))"
    from Opt.IH[OF this] show ?thesis by auto
  next
    assume "s' = s"
    then have "s = [] @ s'" "in_lang rt (Opt r) []" by simp_all
    then show ?thesis by blast
  qed
next
  case (Cat r1 r2)
  from Cat.prems obtain s1 g1 where m1: "(s1, g1) \<in> set (matches rt r1 (s, gs))"
    and m2: "(s', gs') \<in> set (matches rt r2 (s1, g1))" by auto
  from Cat.IH(1)[OF m1] obtain u where u: "s = u @ s1" "in_lang rt r1 u" by blast
  from Cat.IH(2)[OF m2] obtain v where v: "s1 = v @ s'" "in_lang rt r2 v" by blast
  have "s = (u @ v) @ s'" using u v by simp
  moreover have "in_lang rt (Cat r1 r2) (u @ v)" unfolding in_lang_Cat using u v by blast
  ultimately show ?case by blast
next
  case (Capture r)
  then obtain g where "(s', g) \<in> set (matches rt r (s, gs))" by auto
  from Capture.IH[OF this] show ?case by simp
qed

lemma matches_complete:
  "in_lang rt r w \<Longrightarrow> \<exists>gs'. (v, gs') \<in> set (matches rt r (w @ v, gs))"
proof (induction r arbitrary: w v gs)
  case (One a)
  then show ?case by (auto split: list.splits)
next
  case (Many a)
  then have w: "w \<noteq> []" "list_all (atom_ok rt a) w" by simp_all
  have "takeWhile (atom_ok rt a) (w @ v) = w @ takeWhile (atom_ok rt a) v"
    using w(2) by (simp add: list_all_iff)
  then have "length w \<le> length (takeWhile (atom_ok rt a) (w @ v))" by simp
  moreover have "1 \<le> length w" using w(1) by (cases w) simp_all
  ultimately have "length w \<in> set (rev [1 ..< Suc (length (takeWhile (atom_ok rt a) (w @ v)))])"
    by (simp del: takeWhile_append) linarith
  then have "(\<lambda>n. (drop n (w @ v), gs)) (length w) \<in> set (matches rt (Many a) (w @ v, gs))"
    unfolding matches.simps set_map by (rule imageI)
  then show ?case by auto
next
  case (Opt r)
  from Opt.prems have "w = [] \<or> in_lang rt r w" by simp
  then show ?case
  proof
    assume "w = []"
    then show ?thesis by auto
  next
    assume "in_lang rt r w"
    from Opt.IH[OF this, of v gs] show ?thesis by auto
  qed
next
  case (Cat r1 r2)
  then obtain u z where w: "w = u @ z" and u: "in_lang rt r1 u" and z: "in_lang rt r2 z"
    unfolding in_lang_Cat by blast
  from Cat.IH(1)[OF u, of "z @ v" gs] obtain g1 where g1: "(z @ v, g1) \<in> set (matches rt r1 (u @ z @ v, gs))"
    by blast
  from Cat.IH(2)[OF z, of v g1] obtain g2 where g2: "(v, g2) \<in> set (matches rt r2 (z @ v, g1))"
    by blast
  show ?case using g1 g2 w by auto
next
  case (Capture r)
  from Capture.IH[of w v gs] Capture.prems obtain g where "(v, g) \<in> set (matches rt r (w @ v, gs))"
    by auto
  then show ?case by force
qed

lemma matches_groups:
  "groups_fixed r \<Longrightarrow> (s', gs') \<in> set (matches rt r (s, gs))
     \<Longrightarrow> length gs' = length gs + ngroups r"
proof (induction r arbitrary: s gs s' gs')
  case (One a)
  then show ?case by (cases s) (auto split: if_splits)
next
  case (Many a)
  then show ?case by auto
next
  case (Opt r)
  from Opt.prems have "(s', gs') \<in> set (matches rt r (s, gs)) \<or> gs' = gs" by auto
  then show ?case using Opt.IH[of s' gs' s gs] Opt.prems(1) by auto
next
  case (Cat r1 r2)
  from Cat.prems obtain s1 g1 where m1: "(s1, g1) \<in> set (matches rt r1 (s, gs))"
    and m2: "(s', gs') \<in> set (matches rt r2 (s1, g1))" by auto
  show ?case using Cat.IH(1)[OF _ m1] Cat.IH(2)[OF _ m2] Cat.prems(1) by simp
next
  case (Capture r)
  then obtain g where g: "(s', g) \<in> set (matches rt r (s, gs))"
    and gs': "gs' = g @ [take (length s - length s') s]" by auto
  show ?case using Capture.IH[OF _ g] gs' Capture.prems(1) by simp
qed

lemma match_at_Some_iff:
  "match_at rt r s \<noteq> None \<longleftrightarrow> (\<exists>w v. s = w @ v \<and> in_lang rt r w)"
proof
  assume "match_at rt r s \<noteq> None"
  then obtain s' gs' where "(s', gs') \<in> set (matches rt r (s, []))"
    by (cases "matches rt r (s, [])") (auto simp: match_at_def)
  from matches_sound[OF this] show "\<exists>w v. s = w @ v \<and> in_lang rt r w" by blast
next
  assume "\<exists>w v. s = w @ v \<and> in_lang rt r w"
  then obtain w v where s: "s = w @ v" and w: "in_lang rt r w" by blast
  from matches_complete[OF w, of v "[]"] have "matches rt r (s, []) \<noteq> []" using s by auto
  then show "match_at rt r s \<noteq> None"
    by (cases "matches rt r (s, [])") (auto simp: match_at_def)
qed

lemma match_at_groups:
  "groups_fixed r \<Longrightarrow> match_at rt r s = Some gs \<Longrightarrow> length gs = ngroups r"
proof -
  assume f: "groups_fixed r"
  assume a: "match_at rt r s = Some gs"
  then obtain s' where "(s', gs) \<in> set (matches rt r (s, []))"
    by (cases "matches rt r (s, [])") (auto simp: match_at_def)
  from matches_groups[OF f this] show ?thesis by simp
qed

lemma search_Some_iff: "search rt r s \<noteq> None \<longleftrightarrow> contains_match rt r s"
proof (induction s)
  case Nil
  have "search rt r [] \<noteq> None \<longleftrightarrow> match_at rt r [] \<noteq> None" by simp
  also have "\<dots> \<longleftrightarrow> in_lang rt r []" unfolding match_at_Some_iff by simp
  also have "\<dots> \<longleftrightarrow> contains_match rt r []" unfolding contains_match_def by simp
  finally show ?case .
next
  case (Cons c cs)
  show ?case
  proof (cases "match_at rt r (c # cs)")
    case (Some gs)
    then have "match_at rt r (c # cs) \<noteq> None" by simp
    then obtain w v where "c # cs = [] @ w @ v" "in_lang rt r w"
      unfolding match_at_Some_iff by auto
    then have "contains_match rt r (c # cs)" unfolding contains_match_def by blast
    then show ?thesis using Some by simp
  next
    case None
    have "contains_match rt r (c # cs) \<longleftrightarrow> contains_match rt r cs"
    proof
      assume "contains_match rt r (c # cs)"
      then obtain u w v where e: "c # cs = u @ w @ v" and w: "in_lang rt r w"
        unfolding contains_match_def by blast
      show "contains_match rt r cs"
      proof (cases u)
        case Nil
        then have "match_at rt r (c # cs) \<noteq> None" unfolding match_at_Some_iff using e w by auto
        then show ?thesis using None by simp
      next
        case (Cons a u')
        then have "cs = u' @ w @ v" using e by simp
        then show ?thesis unfolding contains_match_def using w by blast
      qed
    next
      assume "contains_match rt r cs"
      then obtain u w v where "cs = u @ w @ v" "in_lang rt r w"
        unfolding contains_match_def by blast
      then have "c # cs = (c # u) @ w @ v" "in_lang rt r w" by simp_all
      then show "contains_match rt r (c # cs)" unfolding contains_match_def by blast
    qed
    then show ?thesis using None Cons.IH by simp
  qed
qed

lemma search_groups:
  "groups_fixed r \<Longrightarrow> search rt r s = Some gs \<Longrightarrow> length gs = ngroups r"
  by (induction s) (auto split: option.splits dest: match_at_groups)

lemma fullmatch_Some_iff: "fullmatch rt r s \<noteq> None \<longleftrightarrow> in_lang rt r s"
proof
  assume "fullmatch rt r s \<noteq> None"
  then obtain x where "x \<in> set (filter (\<lambda>(rest, gs). rest = []) (matches rt r (s, [])))"
    by (cases "filter (\<lambda>(rest, gs). rest = []) (matches rt r (s, []))") (auto simp: fullmatch_def)
  then obtain gs' where "([], gs') \<in> set (matches rt r (s, []))" by auto
  from matches_sound[OF this] show "in_lang rt r s" by simp
next
  assume "in_lang rt r s"
  from matches_complete[OF this, of "[]" "[]"] obtain gs' where "([], gs') \<in> set (matches rt r (s, []))"
    by auto
  then have "([], gs') \<in> set (filter (\<lambda>(rest, gs). rest = []) (matches rt r (s, [])))" by simp
  then show "fullmatch rt r s \<noteq> None"
    by (cases "filter (\<lambda>(rest, gs). rest = []) (matches rt r (s, []))") (auto simp: fullmatch_def)
qed

subsection \<open>What the parser returns\<close>

lemma in_lang_number_Nil [simp]: "\<not> in_lang rt number_re []"
  by (simp add: number_re_def)

lemma in_lang_Nil [simp]:
  "\<not> in_lang rt decimal_re []" "\<not> in_lang rt dms_re []" "\<not> in_lang rt dms_re2 []"
  by (simp_all add: decimal_re_def dms_re_def dms_re2_def number_re_def)

lemma not_well_formed_Nil: "\<not> well_formed rt []"
  by (simp add: well_formed_def contains_match_def)

lemma groups_dms: "groups_fixed dms_re" "ngroups dms_re = 3" "groups_fixed dms_re2" "ngroups dms_re2 = 2"
  by (simp_all add: dms_re_def dms_re2_def number_re_def)

lemma length3: "length xs = 3 \<Longrightarrow> \<exists>a b c. xs = [a, b, c]"
  by (cases xs; cases "tl xs"; cases "tl (tl xs)") auto

lemma length2: "length xs = 2 \<Longrightarrow> \<exists>a b. xs = [a, b]"
  by (cases xs; cases "tl xs") auto

lemma dms_value:
  "\<exists>x. lit c * (\<bar>Return d\<bar> + truediv (Return mm) (lit 60.0) + truediv (Return ss) (lit 3600.0))
         = Return x"
  by simp

lemma dm_value: "\<exists>x. lit c * (\<bar>Return d\<bar> + truediv (Return mm) (lit 60.0)) = Return x"
  by simp

lemma parse_text:
  "\<exists>x. parse_coord_py rt (Some cell) =
         (if well_formed rt (strip rt cell) then Return (Some x) else Return None)"
proof -
  define s where "s = strip rt cell"
  have unfold: "parse_coord_py rt (Some cell) =
     (if s = [] then Return None
      else if fullmatch rt decimal_re s \<noteq> None then Return (Some (float_of rt s))
      else
        (case search rt dms_re s of
           Some m \<Rightarrow>
             (case map (float_of rt) m of
                [d, mm, ss] \<Rightarrow>
                  bnd (lit (if d < Finite 0 then - 1 else 1)
                         * (\<bar>Return d\<bar> + truediv (Return mm) (lit 60.0)
                              + truediv (Return ss) (lit 3600.0)))
                    (\<lambda>x. Return (Some x))
              | _ \<Rightarrow> Raise ValueError)
         | None \<Rightarrow>
             (case search rt dms_re2 s of
                Some m2 \<Rightarrow>
                  (case map (float_of rt) m2 of
                     [d, mm] \<Rightarrow>
                       bnd (lit (if d < Finite 0 then - 1 else 1)
                              * (\<bar>Return d\<bar> + truediv (Return mm) (lit 60.0)))
                         (\<lambda>x. Return (Some x))
                   | _ \<Rightarrow> Raise ValueError)
              | None \<Rightarrow> Return None)))"
    unfolding parse_coord_py_def s_def Let_def option.case ..
  show ?thesis
  proof (cases "s = []")
    case True
    have "\<not> well_formed rt s"
      unfolding True by (rule not_well_formed_Nil)
    then show ?thesis
      unfolding unfold s_def[symmetric] using True by simp
  next
    case ne: False
    show ?thesis
    proof (cases "fullmatch rt decimal_re s \<noteq> None")
      case True
      then have "in_lang rt decimal_re s"
        using fullmatch_Some_iff by blast
      then have "well_formed rt s"
        by (simp add: well_formed_def)
      then show ?thesis
        unfolding unfold s_def[symmetric] using True ne by simp
    next
      case nf: False
      then have nd: "\<not> in_lang rt decimal_re s"
        using fullmatch_Some_iff by blast
      show ?thesis
      proof (cases "search rt dms_re s")
        case (Some m)
        then have "search rt dms_re s \<noteq> None"
          by simp
        then have "contains_match rt dms_re s"
          using search_Some_iff by blast
        then have wf: "well_formed rt s"
          by (simp add: well_formed_def)
        from search_groups[OF groups_dms(1) Some] have "length (map (float_of rt) m) = 3"
          by (simp add: groups_dms)
        then obtain d mm ss where m: "map (float_of rt) m = [d, mm, ss]"
          using length3 by metis
        obtain x where x: "lit (if d < Finite 0 then - 1 else 1)
            * (\<bar>Return d\<bar> + truediv (Return mm) (lit 60.0) + truediv (Return ss) (lit 3600.0))
            = Return x"
          using dms_value by blast
        have "parse_coord_py rt (Some cell) = Return (Some x)"
          unfolding unfold Some option.case m list.case x bnd_simps using ne nf by simp
        then show ?thesis
          unfolding s_def[symmetric] using wf by simp
      next
        case n1: None
        then have c1: "\<not> contains_match rt dms_re s"
          using search_Some_iff[of rt dms_re s] by simp
        show ?thesis
        proof (cases "search rt dms_re2 s")
          case (Some m)
          then have "search rt dms_re2 s \<noteq> None"
            by simp
          then have "contains_match rt dms_re2 s"
            using search_Some_iff by blast
          then have wf: "well_formed rt s"
            by (simp add: well_formed_def)
          from search_groups[OF groups_dms(3) Some] have "length (map (float_of rt) m) = 2"
            by (simp add: groups_dms)
          then obtain d mm where m: "map (float_of rt) m = [d, mm]"
            using length2 by metis
          obtain x where x: "lit (if d < Finite 0 then - 1 else 1)
              * (\<bar>Return d\<bar> + truediv (Return mm) (lit 60.0)) = Return x"
            using dm_value by blast
          have "parse_coord_py rt (Some cell) = Return (Some x)"
            unfolding unfold n1 Some option.case m list.case x bnd_simps using ne nf by simp
          then show ?thesis
            unfolding s_def[symmetric] using wf by simp
        next
          case n2: None
          then have c2: "\<not> contains_match rt dms_re2 s"
            using search_Some_iff[of rt dms_re2 s] by simp
          have nwf: "\<not> well_formed rt s"
            using nd c1 c2 by (simp add: well_formed_def)
          have "parse_coord_py rt (Some cell) = Return None"
            unfolding unfold n1 n2 option.case using ne nf by simp
          then show ?thesis
            unfolding s_def[symmetric] using nwf by simp
        qed
      qed
    qed
  qed
qed

lemma forces_digit_in_lang:
  "forces_digit r \<Longrightarrow> in_lang rt r w \<Longrightarrow> \<exists>c\<in>set w. isdigit rt c"
proof (induction r arbitrary: w)
  case (Many a)
  then have a: "a = Digit"
    by (cases a) simp_all
  from Many.prems(2) obtain c cs where w: "w = c # cs" and "list_all (atom_ok rt a) w"
    by (cases w) simp_all
  then have "isdigit rt c"
    using a by simp
  then show ?case
    using w by auto
next
  case (Cat r1 r2)
  from Cat.prems(2) obtain u v where w: "w = u @ v" and u: "in_lang rt r1 u" and v: "in_lang rt r2 v"
    unfolding in_lang_Cat by blast
  from Cat.prems(1) have "forces_digit r1 \<or> forces_digit r2"
    by simp
  then show ?case
  proof
    assume "forces_digit r1"
    from Cat.IH(1)[OF this u] show ?thesis
      using w by auto
  next
    assume "forces_digit r2"
    from Cat.IH(2)[OF this v] show ?thesis
      using w by auto
  qed
qed simp_all

lemma well_formed_has_digit:
  assumes "well_formed rt t"
  shows "\<exists>c\<in>set t. isdigit rt c"
proof -
  have f: "forces_digit decimal_re" "forces_digit dms_re" "forces_digit dms_re2"
    by (simp_all add: decimal_re_def dms_re_def dms_re2_def number_re_def)
  have c: "\<exists>c\<in>set t. isdigit rt c" if "forces_digit r" and "contains_match rt r t" for r
  proof -
    from that(2) obtain u w v where t: "t = u @ w @ v" and w: "in_lang rt r w"
      unfolding contains_match_def by blast
    from forces_digit_in_lang[OF that(1) w] show ?thesis
      using t by auto
  qed
  from assms consider "in_lang rt decimal_re t" | "contains_match rt dms_re t"
    | "contains_match rt dms_re2 t"
    unfolding well_formed_def by blast
  then show ?thesis
  proof cases
    case 1
    from forces_digit_in_lang[OF f(1) this] show ?thesis .
  next
    case 2
    from c[OF f(2) this] show ?thesis .
  next
    case 3
    from c[OF f(3) this] show ?thesis .
  qed
qed

subsection \<open>The loop\<close>

lemma rows_loop_append:
  "rows_loop rt tr (xs @ ys) st = bnd (rows_loop rt tr xs st) (rows_loop rt tr ys)"
proof (induction xs arbitrary: st)
  case Nil
  show ?case by simp
next
  case (Cons r xs)
  show ?case by (cases "row_step rt tr r st") (simp_all add: Cons.IH)
qed

lemma parse_cases:
  obtains "parse_coord_py rt v = Return None" | x where "parse_coord_py rt v = Return (Some x)"
proof (cases v)
  case None
  then have "parse_coord_py rt v = Return None" by (simp add: parse_coord_py_def)
  then show ?thesis using that by blast
next
  case (Some cell)
  obtain x where "parse_coord_py rt (Some cell) =
         (if well_formed rt (strip rt cell) then Return (Some x) else Return None)"
    using parse_text by blast
  then show ?thesis using that Some by (cases "well_formed rt (strip rt cell)") simp_all
qed

lemma row_step_skip:
  assumes "parse_coord_py rt (Some (get_val rt r KLat)) = Return None
         \<or> parse_coord_py rt (Some (get_val rt r KLng)) = Return None"
  shows "row_step rt tr r st = Return st"
proof -
  obtain pts stats where st: "st = (pts, stats)" by (cases st)
  show ?thesis
  proof (rule parse_cases[of rt "Some (get_val rt r KLat)"])
    assume lat: "parse_coord_py rt (Some (get_val rt r KLat)) = Return None"
    show ?thesis
    proof (rule parse_cases[of rt "Some (get_val rt r KLng)"])
      assume "parse_coord_py rt (Some (get_val rt r KLng)) = Return None"
      then show ?thesis using lat by (simp add: row_step_def st)
    next
      fix y assume "parse_coord_py rt (Some (get_val rt r KLng)) = Return (Some y)"
      then show ?thesis using lat by (simp add: row_step_def st)
    qed
  next
    fix x assume lat: "parse_coord_py rt (Some (get_val rt r KLat)) = Return (Some x)"
    then have "parse_coord_py rt (Some (get_val rt r KLng)) = Return None"
      using assms by simp
    then show ?thesis using lat by (simp add: row_step_def st)
  qed
qed

lemma get_category_info_total: "\<exists>c. get_category_info cat = Return c"
proof -
  have k: "\<exists>c. lookup_color k = Return c" if "k \<in> set (map fst CATEGORY_COLORS)" for k
  proof (cases "map_of CATEGORY_COLORS k")
    case None
    then show ?thesis using that by (simp add: map_of_eq_None_iff)
  next
    case (Some v)
    then show ?thesis by (simp add: lookup_color_def)
  qed
  have o: "\<exists>c. lookup_color other_key = Return c"
    by (rule k) (simp add: CATEGORY_COLORS_def)
  show ?thesis
  proof (cases "filter (\<lambda>k. k \<noteq> other_key \<and> is_in k cat) (map fst CATEGORY_COLORS)")
    case Nil
    then show ?thesis using o by (simp add: get_category_info_def)
  next
    case (Cons a as)
    then have "a \<in> set (filter (\<lambda>k. k \<noteq> other_key \<and> is_in k cat) (map fst CATEGORY_COLORS))"
      by simp
    then have "a \<in> set (map fst CATEGORY_COLORS)"
      by simp
    from k[OF this] show ?thesis using o Cons by (simp add: get_category_info_def)
  qed
qed

lemma row_step_convert:
  assumes lat: "parse_coord_py rt (Some (get_val rt r KLat)) = Return (Some lat)"
    and lng: "parse_coord_py rt (Some (get_val rt r KLng)) = Return (Some lng)"
  shows "cgcs2000_to_gcj02 tr lng lat = Raise e \<Longrightarrow> row_step rt tr r (pts, stats) = Raise e"
    and "cgcs2000_to_gcj02 tr lng lat = Return (gcj_lng, gcj_lat) \<Longrightarrow>
           \<exists>p stats'. row_step rt tr r (pts, stats) = Return (pts @ [p], stats')
              \<and> p_lng p = gcj_lng \<and> p_lat p = gcj_lat \<and> p_name p = get_val rt r KName"
proof -
  assume "cgcs2000_to_gcj02 tr lng lat = Raise e"
  then show "row_step rt tr r (pts, stats) = Raise e"
    using lat lng by (simp add: row_step_def)
next
  assume c: "cgcs2000_to_gcj02 tr lng lat = Return (gcj_lng, gcj_lat)"
  obtain col where col: "get_category_info (get_val rt r KCategory) = Return col"
    using get_category_info_total by blast
  show "\<exists>p stats'. row_step rt tr r (pts, stats) = Return (pts @ [p], stats')
              \<and> p_lng p = gcj_lng \<and> p_lat p = gcj_lat \<and> p_name p = get_val rt r KName"
    using lat lng c col by (simp add: row_step_def Let_def)
qed



section \<open>The reference vector\<close>

text \<open>
  The value of the distortion at (116.404, 39.915) is enclosed by interval arithmetic. Each
  sine is reduced by a multiple of \<open>\<pi>\<close> to an argument of modulus below \<open>\<pi>/2\<close>, bounded there
  by its Taylor polynomial of degree 11 with the remainder of order 13, and moved to a
  nearby decimal by the Lipschitz bound. The reduction needs \<open>\<pi>\<close> itself, which lies
  between 3.14158 and 3.1416 because the cosine changes sign between 1.57079 and 1.5708.
\<close>

subsection \<open>Enclosures of the sine, and of \<open>\<pi>\<close>\<close>

lemma sin_taylor13:
  "\<bar>sin q - (q - q^3 / 6 + q^5 / 120 - q^7 / 5040 + q^9 / 362880 - q^11 / 39916800)\<bar>
     \<le> \<bar>q\<bar>^13 / 6227020800" for q :: real
proof -
  have s: "(\<Sum>m<13. sin_coeff m * q ^ m)
             = q - q^3 / 6 + q^5 / 120 - q^7 / 5040 + q^9 / 362880 - q^11 / 39916800"
    by (simp add: lessThan_nat_numeral lessThan_Suc sin_coeff_def fact_numeral)
  have fact13: "fact 13 = (6227020800::real)"
    by (simp add: fact_numeral)
  have f: "inverse (fact 13) * \<bar>q\<bar> ^ 13 = \<bar>q\<bar>^13 / 6227020800"
    unfolding fact13 divide_inverse by (rule mult.commute)
  show ?thesis
    using Maclaurin_sin_bound[of q 13] unfolding s f .
qed

lemma sin_lipschitz: "\<bar>sin a - sin b\<bar> \<le> \<bar>a - b\<bar>" for a b :: real
proof -
  have "\<bar>sin a - sin b\<bar> = 2 * \<bar>sin ((a - b) / 2)\<bar> * \<bar>cos ((a + b) / 2)\<bar>"
    by (simp add: sin_diff_sin abs_mult)
  also have "\<dots> \<le> 2 * \<bar>(a - b) / 2\<bar> * 1"
    by (intro mult_mono mult_left_mono abs_sin_x_le_abs_x) simp_all
  also have "\<dots> = \<bar>a - b\<bar>"
    by simp
  finally show ?thesis .
qed

lemma sin_enclosure:
  fixes u q e lo hi :: real
  assumes "q - e \<le> u" and "u \<le> q + e"
    and "lo \<le> (q - q^3 / 6 + q^5 / 120 - q^7 / 5040 + q^9 / 362880 - q^11 / 39916800)
                 - \<bar>q\<bar>^13 / 6227020800 - e"
    and "(q - q^3 / 6 + q^5 / 120 - q^7 / 5040 + q^9 / 362880 - q^11 / 39916800)
                 + \<bar>q\<bar>^13 / 6227020800 + e \<le> hi"
  shows "lo \<le> sin u \<and> sin u \<le> hi"
  using sin_taylor13[of q] sin_lipschitz[of u q] assms by linarith

lemma sin_quarter: "0.707103 \<le> sin (0.785395::real) \<and> sin (0.7854::real) \<le> 0.707109"
  "sin (0.785395::real) \<le> 0.707105" "0.707107 \<le> sin (0.7854::real)"
proof -
  have a: "0.707103 \<le> sin (0.785395::real) \<and> sin (0.785395::real) \<le> 0.707105"
    by (rule sin_enclosure[where q = "0.785395" and e = 0], simp, simp) (simp_all add: power_divide)
  have b: "0.707107 \<le> sin (0.7854::real) \<and> sin (0.7854::real) \<le> 0.707109"
    by (rule sin_enclosure[where q = "0.7854" and e = 0], simp, simp) (simp_all add: power_divide)
  show "0.707103 \<le> sin (0.785395::real) \<and> sin (0.7854::real) \<le> 0.707109"
    "sin (0.785395::real) \<le> 0.707105" "0.707107 \<le> sin (0.7854::real)"
    using a b by simp_all
qed

lemma cos_from_sin_half: "cos x = 1 - 2 * (sin (x / 2))\<^sup>2" for x :: real
  using cos_double_sin[of "x / 2"] by simp

lemma pi_bounds: "3.14158 < pi" "pi < 3.1416"
proof -
  have s1: "0 \<le> sin (0.785395::real)" "sin (0.785395::real) \<le> 0.707105"
    using sin_quarter by simp_all
  have "(sin (0.785395::real))\<^sup>2 \<le> 0.707105\<^sup>2"
    using s1 by (intro power_mono) simp_all
  also have "\<dots> < (1 / 2 :: real)"
    by (simp add: power2_eq_square)
  finally have c1: "0 < cos (1.57079::real)"
    using cos_from_sin_half[of "1.57079"] by simp
  have "(1 / 2 :: real) < 0.707107\<^sup>2"
    by (simp add: power2_eq_square)
  also have "\<dots> \<le> (sin (0.7854::real))\<^sup>2"
    using sin_quarter(3) by (intro power_mono) simp_all
  finally have c2: "cos (1.5708::real) < 0"
    using cos_from_sin_half[of "1.5708"] by simp
  show "3.14158 < pi"
  proof (rule ccontr)
    assume "\<not> 3.14158 < pi"
    then have le: "pi / 2 \<le> 1.57079" by simp
    have "cos (1.57079::real) \<le> cos (pi / 2)"
    proof (cases "pi / 2 = 1.57079")
      case True
      show ?thesis unfolding True by (rule order_refl)
    next
      case False
      then have "pi / 2 < 1.57079" using le by simp
      then have "cos (1.57079::real) < cos (pi / 2)"
        using pi_ge_two by (intro cos_monotone_0_pi) simp_all
      then show ?thesis by simp
    qed
    then show False using c1 by simp
  qed
  show "pi < 3.1416"
  proof (rule ccontr)
    assume "\<not> pi < 3.1416"
    then have le: "1.5708 \<le> pi / 2" by simp
    have "cos (pi / 2) \<le> cos (1.5708::real)"
    proof (cases "pi / 2 = 1.5708")
      case True
      show ?thesis unfolding True by (rule order_refl)
    next
      case False
      then have "1.5708 < pi / 2" using le by simp
      then have "cos (pi / 2) < cos (1.5708::real)"
        by (intro cos_monotone_0_pi) simp_all
      then show ?thesis by simp
    qed
    then show False using c2 by simp
  qed
qed


lemma sin_shift: "sin (t - 2 * pi * real_of_int k) = sin t"
  by (simp add: sin_diff)

lemma sin_term_even:
  fixes t q e lo hi :: real
  assumes "q - e \<le> t - 2 * pi * real_of_int k" and "t - 2 * pi * real_of_int k \<le> q + e"
    and "lo \<le> (q - q^3 / 6 + q^5 / 120 - q^7 / 5040 + q^9 / 362880 - q^11 / 39916800)
                 - \<bar>q\<bar>^13 / 6227020800 - e"
    and "(q - q^3 / 6 + q^5 / 120 - q^7 / 5040 + q^9 / 362880 - q^11 / 39916800)
                 + \<bar>q\<bar>^13 / 6227020800 + e \<le> hi"
  shows "lo \<le> sin t \<and> sin t \<le> hi"
  using sin_enclosure[OF assms] by (simp only: sin_shift)

lemma sin_term_odd:
  fixes t q e lo hi :: real
  assumes "q - e \<le> pi - (t - 2 * pi * real_of_int k)"
    and "pi - (t - 2 * pi * real_of_int k) \<le> q + e"
    and "lo \<le> (q - q^3 / 6 + q^5 / 120 - q^7 / 5040 + q^9 / 362880 - q^11 / 39916800)
                 - \<bar>q\<bar>^13 / 6227020800 - e"
    and "(q - q^3 / 6 + q^5 / 120 - q^7 / 5040 + q^9 / 362880 - q^11 / 39916800)
                 + \<bar>q\<bar>^13 / 6227020800 + e \<le> hi"
  shows "lo \<le> sin t \<and> sin t \<le> hi"
  using sin_enclosure[OF assms] by (simp only: sin_pi_minus sin_shift)

lemma sin_6x: "0.970993 \<le> sin (6 * 11.404 * spec_pi) \<and> sin (6 * 11.404 * spec_pi) \<le> 0.972356"
proof (rule sin_term_even[where k = 34 and q = "1.332215" and e = "0.0006808"])
  show "1.332215 - 0.0006808 \<le> 6 * 11.404 * spec_pi - 2 * pi * real_of_int 34"
    using pi_bounds by (simp add: spec_pi_def spec_rad_def)
  show "6 * 11.404 * spec_pi - 2 * pi * real_of_int 34 \<le> 1.332215 + 0.0006808"
    using pi_bounds by (simp add: spec_pi_def spec_rad_def)
qed (simp_all add: power_divide)

lemma sin_2x: "0.566987 \<le> sin (2 * 11.404 * spec_pi) \<and> sin (2 * 11.404 * spec_pi) \<le> 0.567449"
proof (rule sin_term_odd[where k = 11 and q = "0.603124" and e = "0.0002308"])
  show "0.603124 - 0.0002308 \<le> pi - (2 * 11.404 * spec_pi - 2 * pi * real_of_int 11)"
    using pi_bounds by (simp add: spec_pi_def spec_rad_def)
  show "pi - (2 * 11.404 * spec_pi - 2 * pi * real_of_int 11) \<le> 0.603124 + 0.0002308"
    using pi_bounds by (simp add: spec_pi_def spec_rad_def)
qed (simp_all add: power_divide)

lemma sin_y: "0.263809 \<le> sin (4.915 * spec_pi) \<and> sin (4.915 * spec_pi) \<le> 0.263911"
proof (rule sin_term_odd[where k = 2 and q = "0.267022" and e = "0.0000502"])
  show "0.267022 - 0.0000502 \<le> pi - (4.915 * spec_pi - 2 * pi * real_of_int 2)"
    using pi_bounds by (simp add: spec_pi_def spec_rad_def)
  show "pi - (4.915 * spec_pi - 2 * pi * real_of_int 2) \<le> 0.267022 + 0.0000502"
    using pi_bounds by (simp add: spec_pi_def spec_rad_def)
qed (simp_all add: power_divide)

lemma sin_y3: "- 0.907064 \<le> sin (4.915 / 3 * spec_pi) \<and> sin (4.915 / 3 * spec_pi) \<le> - 0.907021"
proof (rule sin_term_even[where k = 1 and q = "- 1.136205" and e = "0.000021"])
  show "- 1.136205 - 0.000021 \<le> 4.915 / 3 * spec_pi - 2 * pi * real_of_int 1"
    using pi_bounds by (simp add: spec_pi_def spec_rad_def)
  show "4.915 / 3 * spec_pi - 2 * pi * real_of_int 1 \<le> - 1.136205 + 0.000021"
    using pi_bounds by (simp add: spec_pi_def spec_rad_def)
qed (simp_all add: power_divide)

lemma sin_y12: "0.959926 \<le> sin (4.915 / 12 * spec_pi) \<and> sin (4.915 / 12 * spec_pi) \<le> 0.959929"
proof (rule sin_term_even[where k = 0 and q = "1.286743" and e = "0.000001"])
  show "1.286743 - 0.000001 \<le> 4.915 / 12 * spec_pi - 2 * pi * real_of_int 0"
    using pi_bounds by (simp add: spec_pi_def spec_rad_def)
  show "4.915 / 12 * spec_pi - 2 * pi * real_of_int 0 \<le> 1.286743 + 0.000001"
    using pi_bounds by (simp add: spec_pi_def spec_rad_def)
qed (simp_all add: power_divide)

lemma sin_y30: "0.49227 \<le> sin (4.915 / 30 * spec_pi) \<and> sin (4.915 / 30 * spec_pi) \<le> 0.492272"
proof (rule sin_term_even[where k = 0 and q = "0.514697" and e = "0.0000006"])
  show "0.514697 - 0.0000006 \<le> 4.915 / 30 * spec_pi - 2 * pi * real_of_int 0"
    using pi_bounds by (simp add: spec_pi_def spec_rad_def)
  show "4.915 / 30 * spec_pi - 2 * pi * real_of_int 0 \<le> 0.514697 + 0.0000006"
    using pi_bounds by (simp add: spec_pi_def spec_rad_def)
qed (simp_all add: power_divide)

lemma sin_x: "- 0.954984 \<le> sin (11.404 * spec_pi) \<and> sin (11.404 * spec_pi) \<le> - 0.954762"
proof (rule sin_term_odd[where k = 5 and q = "- 1.269233" and e = "0.0001104"])
  show "- 1.269233 - 0.0001104 \<le> pi - (11.404 * spec_pi - 2 * pi * real_of_int 5)"
    using pi_bounds by (simp add: spec_pi_def spec_rad_def)
  show "pi - (11.404 * spec_pi - 2 * pi * real_of_int 5) \<le> - 1.269233 + 0.0001104"
    using pi_bounds by (simp add: spec_pi_def spec_rad_def)
qed (simp_all add: power_divide)

lemma sin_x3: "- 0.584425 \<le> sin (11.404 / 3 * spec_pi) \<and> sin (11.404 / 3 * spec_pi) \<le> - 0.584342"
proof (rule sin_term_even[where k = 2 and q = "- 0.62412" and e = "0.0000409"])
  show "- 0.62412 - 0.0000409 \<le> 11.404 / 3 * spec_pi - 2 * pi * real_of_int 2"
    using pi_bounds by (simp add: spec_pi_def spec_rad_def)
  show "11.404 / 3 * spec_pi - 2 * pi * real_of_int 2 \<le> - 0.62412 + 0.0000409"
    using pi_bounds by (simp add: spec_pi_def spec_rad_def)
qed (simp_all add: power_divide)

lemma sin_x12: "0.155385 \<le> sin (11.404 / 12 * spec_pi) \<and> sin (11.404 / 12 * spec_pi) \<le> 0.155408"
proof (rule sin_term_odd[where k = 0 and q = "0.156029" and e = "0.0000108"])
  show "0.156029 - 0.0000108 \<le> pi - (11.404 / 12 * spec_pi - 2 * pi * real_of_int 0)"
    using pi_bounds by (simp add: spec_pi_def spec_rad_def)
  show "pi - (11.404 / 12 * spec_pi - 2 * pi * real_of_int 0) \<le> 0.156029 + 0.0000108"
    using pi_bounds by (simp add: spec_pi_def spec_rad_def)
qed (simp_all add: power_divide)

lemma sin_x30: "0.92993 \<le> sin (11.404 / 30 * spec_pi) \<and> sin (11.404 / 30 * spec_pi) \<le> 0.929931"
proof (rule sin_term_even[where k = 0 and q = "1.194224" and e = "0.0000001"])
  show "1.194224 - 0.0000001 \<le> 11.404 / 30 * spec_pi - 2 * pi * real_of_int 0"
    using pi_bounds by (simp add: spec_pi_def spec_rad_def)
  show "11.404 / 30 * spec_pi - 2 * pi * real_of_int 0 \<le> 1.194224 + 0.0000001"
    using pi_bounds by (simp add: spec_pi_def spec_rad_def)
qed (simp_all add: power_divide)

lemma sin_rad: "0.64165 \<le> sin (spec_rad 39.915) \<and> sin (spec_rad 39.915) \<le> 0.641651"
proof (rule sin_term_even[where k = 0 and q = "0.696648" and e = "0.0000002"])
  show "0.696648 - 0.0000002 \<le> spec_rad 39.915 - 2 * pi * real_of_int 0"
    using pi_bounds by (simp add: spec_pi_def spec_rad_def)
  show "spec_rad 39.915 - 2 * pi * real_of_int 0 \<le> 0.696648 + 0.0000002"
    using pi_bounds by (simp add: spec_pi_def spec_rad_def)
qed (simp_all add: power_divide)

lemma sin_half_rad: "0.341322 \<le> sin (spec_rad 39.915 / 2) \<and> sin (spec_rad 39.915 / 2) \<le> 0.341324"
proof (rule sin_term_even[where k = 0 and q = "0.348324" and e = "0.0000001"])
  show "0.348324 - 0.0000001 \<le> spec_rad 39.915 / 2 - 2 * pi * real_of_int 0"
    using pi_bounds by (simp add: spec_pi_def spec_rad_def)
  show "spec_rad 39.915 / 2 - 2 * pi * real_of_int 0 \<le> 0.348324 + 0.0000001"
    using pi_bounds by (simp add: spec_pi_def spec_rad_def)
qed (simp_all add: power_divide)
subsection \<open>The corrections and the scaling at the reference point\<close>

lemma sqrt_x: "3.37698 \<le> sqrt 11.404 \<and> sqrt 11.404 \<le> 3.37699"
  by (intro conjI real_le_rsqrt real_le_lsqrt) (simp_all add: power2_eq_square)

lemma dLat_bounds: "155.910 \<le> spec_dLat 11.404 4.915 \<and> spec_dLat 11.404 4.915 \<le> 155.938"
  using sin_6x sin_2x sin_y sin_y3 sin_y12 sin_y30 sqrt_x
  unfolding spec_dLat_def by (simp add: power2_eq_square) argo

lemma dLng_bounds: "533.894 \<le> spec_dLng 11.404 4.915 \<and> spec_dLng 11.404 4.915 \<le> 533.928"
  using sin_6x sin_2x sin_x sin_x3 sin_x12 sin_x30 sqrt_x
  unfolding spec_dLng_def by (simp add: power2_eq_square) argo


lemma prod_bounds:
  fixes a b c d x y :: real
  assumes "0 \<le> a" "a \<le> x" "x \<le> b" "0 \<le> c" "c \<le> y" "y \<le> d"
  shows "a * c \<le> x * y \<and> x * y \<le> b * d"
  using assms by (auto intro!: mult_mono)

lemma quot_bounds:
  fixes a b c d x y :: real
  assumes "0 \<le> a" "a \<le> x" "x \<le> b" "0 < c" "c \<le> y" "y \<le> d"
  shows "a / d \<le> x / y \<and> x / y \<le> b / c"
  using assms by (auto intro!: frac_le)

lemma magic_bounds: "0.9972442 \<le> spec_magic 39.915 \<and> spec_magic 39.915 \<le> 0.9972443"
proof -
  let ?r = "sin (spec_rad 39.915)"
  have r: "0.64165 \<le> ?r" "?r \<le> 0.641651"
    using sin_rad by simp_all
  have "0.64165\<^sup>2 \<le> ?r\<^sup>2"
    using r(1) by (intro power_mono) simp_all
  moreover have "?r\<^sup>2 \<le> 0.641651\<^sup>2"
    using r by (intro power_mono) simp_all
  ultimately show ?thesis
    unfolding spec_magic_def spec_ee_def by (simp add: power2_eq_square)
qed

lemma sqrt_magic_bounds:
  "0.998621 \<le> sqrt (spec_magic 39.915) \<and> sqrt (spec_magic 39.915) \<le> 0.9986213"
proof
  have "0.998621\<^sup>2 \<le> (0.9972442::real)"
    by (simp add: power2_eq_square)
  then have "0.998621\<^sup>2 \<le> spec_magic 39.915"
    using magic_bounds by linarith
  then show "0.998621 \<le> sqrt (spec_magic 39.915)"
    by (rule real_le_rsqrt)
  have "(0.9972443::real) \<le> 0.9986213\<^sup>2"
    by (simp add: power2_eq_square)
  then have "spec_magic 39.915 \<le> 0.9986213\<^sup>2"
    using magic_bounds by linarith
  then show "sqrt (spec_magic 39.915) \<le> 0.9986213"
    by (intro real_le_lsqrt) simp_all
qed

lemma cos_rad_bounds:
  "0.766995 \<le> cos (spec_rad 39.915) \<and> cos (spec_rad 39.915) \<le> 0.766999"
proof -
  let ?h = "sin (spec_rad 39.915 / 2)"
  have h: "0.341322 \<le> ?h" "?h \<le> 0.341324"
    using sin_half_rad by simp_all
  have "0.341322\<^sup>2 \<le> ?h\<^sup>2"
    using h(1) by (intro power_mono) simp_all
  moreover have "?h\<^sup>2 \<le> 0.341324\<^sup>2"
    using h by (intro power_mono) simp_all
  ultimately show ?thesis
    unfolding cos_from_sin_half[of "spec_rad 39.915"] by (simp add: power2_eq_square)
qed


lemma lat_scaling:
  assumes "0 < m"
  shows "d * (180 / ((spec_a * (1 - spec_ee)) / (m powr 1.5) * spec_pi))
           = d * (m * sqrt m) * (180 / (spec_a * (1 - spec_ee) * spec_pi))"
proof -
  have "m powr 1.5 = m * sqrt m"
    using powr_three_halves[OF assms] by simp
  then show ?thesis
    by simp
qed

lemma lng_scaling:
  "d * (180 / (spec_a / s * c * spec_pi)) = d * s / c * (180 / (spec_a * spec_pi))"
  by (simp add: mult_ac)

lemma reference_lat:
  "39.91640 \<le> snd (spec_distort 116.404 39.915) \<and> snd (spec_distort 116.404 39.915) \<le> 39.91641"
proof -
  let ?m = "spec_magic 39.915"
  let ?d = "spec_dLat 11.404 4.915"
  have m: "0 < ?m"
    by (rule magic_pos)
  have k: "0.9972442 * 0.998621 \<le> ?m * sqrt ?m \<and> ?m * sqrt ?m \<le> 0.9972443 * 0.9986213"
    using magic_bounds sqrt_magic_bounds by (intro prod_bounds) simp_all
  have v: "155.910 * (0.9972442 * 0.998621) \<le> ?d * (?m * sqrt ?m)
         \<and> ?d * (?m * sqrt ?m) \<le> 155.938 * (0.9972443 * 0.9986213)"
    using dLat_bounds k by (intro prod_bounds) simp_all
  have c: "0 \<le> 180 / (spec_a * (1 - spec_ee) * spec_pi)"
    by (simp add: spec_a_def spec_ee_def spec_pi_def)
  have lo: "155.910 * (0.9972442 * 0.998621) * (180 / (spec_a * (1 - spec_ee) * spec_pi))
              \<le> ?d * (?m * sqrt ?m) * (180 / (spec_a * (1 - spec_ee) * spec_pi))"
    using v c by (intro mult_right_mono) simp_all
  have hi: "?d * (?m * sqrt ?m) * (180 / (spec_a * (1 - spec_ee) * spec_pi))
              \<le> 155.938 * (0.9972443 * 0.9986213) * (180 / (spec_a * (1 - spec_ee) * spec_pi))"
    using v c by (intro mult_right_mono) simp_all
  have nlo: "(0.00140::real) \<le> 155.910 * (0.9972442 * 0.998621) * (180 / (spec_a * (1 - spec_ee) * spec_pi))"
    by (simp add: spec_a_def spec_ee_def spec_pi_def)
  have nhi: "155.938 * (0.9972443 * 0.9986213) * (180 / (spec_a * (1 - spec_ee) * spec_pi)) \<le> (0.00141::real)"
    by (simp add: spec_a_def spec_ee_def spec_pi_def)
  have e: "snd (spec_distort 116.404 39.915)
             = 39.915 + ?d * (?m * sqrt ?m) * (180 / (spec_a * (1 - spec_ee) * spec_pi))"
    unfolding spec_distort_def snd_conv lat_scaling[OF m] by simp
  have "0.00140 \<le> ?d * (?m * sqrt ?m) * (180 / (spec_a * (1 - spec_ee) * spec_pi))"
    using nlo lo by (rule order_trans)
  moreover have "?d * (?m * sqrt ?m) * (180 / (spec_a * (1 - spec_ee) * spec_pi)) \<le> 0.00141"
    using hi nhi by (rule order_trans)
  ultimately show ?thesis
    unfolding e by simp
qed

lemma reference_lng:
  "116.41024 \<le> fst (spec_distort 116.404 39.915) \<and> fst (spec_distort 116.404 39.915) \<le> 116.41025"
proof -
  let ?m = "spec_magic 39.915"
  let ?d = "spec_dLng 11.404 4.915"
  let ?c = "cos (spec_rad 39.915)"
  have w1: "533.894 * 0.998621 \<le> ?d * sqrt ?m \<and> ?d * sqrt ?m \<le> 533.928 * 0.9986213"
    using dLng_bounds sqrt_magic_bounds by (intro prod_bounds) simp_all
  have w: "533.894 * 0.998621 / 0.766999 \<le> ?d * sqrt ?m / ?c
         \<and> ?d * sqrt ?m / ?c \<le> 533.928 * 0.9986213 / 0.766995"
    using w1 cos_rad_bounds by (intro quot_bounds) simp_all
  have c: "0 \<le> 180 / (spec_a * spec_pi)"
    by (simp add: spec_a_def spec_pi_def)
  have lo: "533.894 * 0.998621 / 0.766999 * (180 / (spec_a * spec_pi))
              \<le> ?d * sqrt ?m / ?c * (180 / (spec_a * spec_pi))"
    using w c by (intro mult_right_mono) simp_all
  have hi: "?d * sqrt ?m / ?c * (180 / (spec_a * spec_pi))
              \<le> 533.928 * 0.9986213 / 0.766995 * (180 / (spec_a * spec_pi))"
    using w c by (intro mult_right_mono) simp_all
  have nlo: "(0.00624::real) \<le> 533.894 * 0.998621 / 0.766999 * (180 / (spec_a * spec_pi))"
    by (simp add: spec_a_def spec_pi_def)
  have nhi: "533.928 * 0.9986213 / 0.766995 * (180 / (spec_a * spec_pi)) \<le> (0.00625::real)"
    by (simp add: spec_a_def spec_pi_def)
  have e: "fst (spec_distort 116.404 39.915)
             = 116.404 + ?d * sqrt ?m / ?c * (180 / (spec_a * spec_pi))"
    unfolding spec_distort_def fst_conv lng_scaling by simp
  have "0.00624 \<le> ?d * sqrt ?m / ?c * (180 / (spec_a * spec_pi))"
    using nlo lo by (rule order_trans)
  moreover have "?d * sqrt ?m / ?c * (180 / (spec_a * spec_pi)) \<le> 0.00625"
    using hi nhi by (rule order_trans)
  ultimately show ?thesis
    unfolding e by simp
qed

text \<open>
  C6. Applied to the point (116.404, 39.915), \<^verbatim>\<open>wgs84_to_gcj02\<close> returns a pair within
  \<open>10\<^sup>-\<^sup>4\<close> degrees of (116.41024, 39.91634) in each coordinate: the longitude lies in
  [116.41024, 116.41025] and the latitude in [39.91640, 39.91641].
\<close>

theorem reference_vector:
  "\<exists>x y. wgs84_to_gcj02 (Finite 116.404) (Finite 39.915) = Return (Finite x, Finite y)
     \<and> \<bar>x - 116.41024\<bar> \<le> 0.0001 \<and> \<bar>y - 39.91634\<bar> \<le> 0.0001
     \<and> 116.41024 \<le> x \<and> x \<le> 116.41025 \<and> 39.91640 \<le> y \<and> y \<le> 39.91641"
proof -
  have "wgs84_to_gcj02 (Finite 116.404) (Finite 39.915) =
          Return (Finite (fst (spec_distort 116.404 39.915)),
                  Finite (snd (spec_distort 116.404 39.915)))"
    by (rule wgs84_inside)
      (simp_all add: double_73_66_def double_135_05_def double_3_86_def double_53_55_def)
  moreover have "\<bar>fst (spec_distort 116.404 39.915) - 116.41024\<bar> \<le> 0.0001"
    using reference_lng by simp
  moreover have "\<bar>snd (spec_distort 116.404 39.915) - 39.91634\<bar> \<le> 0.0001"
    using reference_lat by simp
  ultimately show ?thesis
    using reference_lng reference_lat by blast
qed

end
